theory Spec2Isabelle
  imports Main "HOL-Library.AList"
begin

section \<open>Data model\<close>

text \<open>
  The development embeds \<^verbatim>\<open>AbstractPopupRedirectResolver\<close>
  (\<^verbatim>\<open>packages/auth-ts/src/core/abstract_popup_redirect_resolver.ts\<close>): the event
  router \<^verbatim>\<open>onEvent\<close>, its helpers \<^verbatim>\<open>userForEvent\<close>, \<^verbatim>\<open>getOutcomeHandler\<close>
  and \<^verbatim>\<open>execIdpTask\<close>, and the two flow starters \<^verbatim>\<open>processPopup\<close> and
  \<^verbatim>\<open>getRedirectResult\<close>.

  Mutation of \<^verbatim>\<open>this\<close> is explicit state passing on the record \<open>Resolver\<close>; a
  \<^verbatim>\<open>throw\<close> or a rejected promise is the \<open>Inl\<close> of a sum; every call the router makes
  on a collaborator (an outcome handler, an IdP task, a hook of the host platform) is
  appended to the field \<open>calls\<close>, so that "which calls were made, in which order" is a
  statement about a list.
\<close>

text \<open>
  Modelled from the spec: \<^verbatim>\<open>model/auth_event.ts\<close> is not part of the sources; the
  enumeration has the seven variants the specification lists.
\<close>

datatype AuthEventType =
    LINK_VIA_POPUP
  | LINK_VIA_REDIRECT
  | REAUTH_VIA_POPUP
  | REAUTH_VIA_REDIRECT
  | SIGN_IN_VIA_POPUP
  | SIGN_IN_VIA_REDIRECT
  | UNKNOWN

datatype AuthErrorCode = INTERNAL_ERROR

text \<open>
  An error value: one created by \<^verbatim>\<open>AUTH_ERROR_FACTORY.create(code, {appName})\<close>, the
  \<^verbatim>\<open>TypeError\<close> the runtime throws when a member of \<^verbatim>\<open>undefined\<close> is read, or any
  other value that was thrown or delivered, identified by its message.
\<close>

datatype Error = AuthError AuthErrorCode string | TypeError | Thrown string

datatype UserCredential = UserCredential string

text \<open>
  Modelled from the spec: a local user session; \<open>redirectEventId\<close> (the member
  \<^verbatim>\<open>redirectEventId_\<close>; a name cannot end in an underscore here) is the event id
  of the link or reauthentication flow it started (\<^verbatim>\<open>null\<close> is \<open>None\<close>).
\<close>

record User =
  uid :: string
  redirectEventId :: "string option"

text \<open>
  The auth context. The router uses one member only, \<^verbatim>\<open>getPotentialRedirectUsers_()\<close>,
  which is the field \<open>getPotentialRedirectUsers\<close>.
\<close>

record Auth =
  name :: string
  getPotentialRedirectUsers :: "User list"

datatype IdpTask = signIn | link | reauth

text \<open>
  \<^verbatim>\<open>idp.IdpTaskParams\<close>, as \<^verbatim>\<open>execIdpTask\<close> builds it; \<open>auth\<close> is whatever
  \<^verbatim>\<open>this.auth\<close> holds, \<open>None\<close> when it is still \<^verbatim>\<open>undefined\<close>.
\<close>

record IdpTaskParams =
  requestUri :: "string option"
  sessionId :: "string option"
  auth :: "Auth option"
  tenantId :: "string option"
  postBody :: "string option"
  user :: "User option"

text \<open>
  Modelled from the spec: the inbound event,
  \<^verbatim>\<open>{ type, eventId: string|null, urlResponse?, sessionId?, postBody?, tenantId?, error? }\<close>.
  An absent or \<^verbatim>\<open>null\<close> member is \<open>None\<close>.
\<close>

record AuthEvent =
  type :: AuthEventType
  eventId :: "string option"
  urlResponse :: "string option"
  sessionId :: "string option"
  postBody :: "string option"
  tenantId :: "string option"
  error :: "Error option"

text \<open>The handle \<^verbatim>\<open>openPopup\<close> resolves with; the router writes \<open>associatedEvent\<close>.\<close>

record AuthPopup =
  window :: nat
  associatedEvent :: "string option"

type_synonym AuthProvider = string

subsection \<open>Outcome handlers\<close>

text \<open>
  \<^verbatim>\<open>RedirectManager\<close> and \<^verbatim>\<open>PopupResultManager\<close> are not part of the sources; the
  two are modelled from the specification's description of the Outcome Handler. A promise is
  identified by a number; a settlement is recorded by appending to the handler's log.
\<close>

type_synonym Promise = nat

datatype Settlement = Resolved "UserCredential option" | Rejected Error

text \<open>
  Modelled from the spec: "If \<^verbatim>\<open>error\<close> is provided, the promise rejects with it;
  otherwise it resolves with \<^verbatim>\<open>credential\<close> (which may be null)."
\<close>

definition settlement :: "UserCredential option \<Rightarrow> Error option \<Rightarrow> Settlement" where
  "settlement cred err = (case err of Some e \<Rightarrow> Rejected e | None \<Rightarrow> Resolved cred)"

text \<open>
  Modelled from the spec: the Popup Outcome Handler. Its Pending Operations are keyed by
  event id (several may coexist); \<open>popupSettled\<close> is the log of settlements in the order
  they happened, \<open>popupNext\<close> the next fresh promise.
\<close>

record PopupResultManager =
  popupPending :: "(string option \<times> Promise) list"
  popupSettled :: "(Promise \<times> Settlement) list"
  popupNext :: Promise

text \<open>
  Modelled from the spec: the Redirect Outcome Handler. \<open>redirectOutcome\<close> is the
  existing pending or settled result, if any; \<open>redirectPending\<close> the singleton Pending
  Operation, holding the promise it settles.
\<close>

record RedirectManager =
  redirectOutcome :: "Promise option"
  redirectPending :: "Promise option"
  redirectSettled :: "(Promise \<times> Settlement) list"

definition newPopupResultManager :: PopupResultManager where
  "newPopupResultManager = \<lparr>popupPending = [], popupSettled = [], popupNext = 0\<rparr>"

definition newRedirectManager :: RedirectManager where
  "newRedirectManager = \<lparr>redirectOutcome = None, redirectPending = None, redirectSettled = []\<rparr>"

text \<open>
  Modelled from the spec: \<^verbatim>\<open>isMatchingEvent(eventId)\<close> is "true iff a Pending
  Operation with that eventId currently exists and is unsettled".
\<close>

definition isMatchingEvent :: "PopupResultManager \<Rightarrow> string option \<Rightarrow> bool" where
  "isMatchingEvent h eid = (map_of (popupPending h) eid \<noteq> None)"

text \<open>
  Modelled from the spec: \<^verbatim>\<open>broadcastResult(credential, error?)\<close> of the Popup
  handler "settles the one Pending Operation whose eventId matches the event being
  processed"; the operation "is removed from the handler exactly when it is settled".
  The source's call passes no event id; the model is given the id of the event being
  processed as \<open>eid\<close>.
\<close>

definition popupBroadcastResult ::
  "string option \<Rightarrow> UserCredential option \<Rightarrow> Error option \<Rightarrow> PopupResultManager
     \<Rightarrow> PopupResultManager" where
  "popupBroadcastResult eid cred err h =
     (case map_of (popupPending h) eid of
        None \<Rightarrow> h
      | Some p \<Rightarrow>
          h\<lparr>popupPending := AList.delete eid (popupPending h),
            popupSettled := popupSettled h @ [(p, settlement cred err)]\<rparr>)"

text \<open>
  Modelled from the spec: \<^verbatim>\<open>broadcastResult\<close> of the Redirect handler "settles the
  singleton Pending Operation", which is removed when it is settled.
\<close>

definition redirectBroadcastResult ::
  "UserCredential option \<Rightarrow> Error option \<Rightarrow> RedirectManager \<Rightarrow> RedirectManager" where
  "redirectBroadcastResult cred err h =
     (case redirectPending h of
        None \<Rightarrow> h
      | Some p \<Rightarrow>
          h\<lparr>redirectPending := None,
            redirectSettled := redirectSettled h @ [(p, settlement cred err)]\<rparr>)"

subsection \<open>The host platform and the resolver\<close>

text \<open>
  Modelled from the spec: the abstract hooks \<^verbatim>\<open>isInitialized\<close>,
  \<^verbatim>\<open>initializeAndWait\<close> and \<^verbatim>\<open>openPopup\<close> have no body in the class; a concrete
  subclass implements them (the Initiation Contract, a "readiness gate"). Its state is
  \<open>Host\<close>: \<open>initialized\<close> is what \<^verbatim>\<open>isInitialized()\<close> answers, \<open>initializing\<close>
  holds while a promise returned by \<^verbatim>\<open>initializeAndWait\<close> is unsettled, and the two
  outcome fields say how the promises of \<^verbatim>\<open>initializeAndWait\<close> and
  \<^verbatim>\<open>openPopup\<close> settle (\<open>None\<close>: fulfilled).
\<close>

record Host =
  initialized :: bool
  initializing :: bool
  initializeOutcome :: "Error option"
  openPopupOutcome :: "Error option"
  nextWindow :: nat

datatype Handler = PopupHandler | RedirectHandler

text \<open>The calls the router makes on its collaborators.\<close>

datatype Call =
    BroadcastResult Handler "UserCredential option" "Error option"
  | IsMatchingEvent "string option"
  | IdpTaskCall IdpTask IdpTaskParams
  | IsInitialized
  | InitializeAndWait Auth
  | InitializeAndWaitSettled "Error option"
  | OpenPopup Auth AuthProvider AuthEventType "string option"

text \<open>
  The resolver: its two handlers, the auth context, the host it runs on and the calls
  made so far. The field \<^verbatim>\<open>private auth!: Auth\<close> has no initializer: it is
  \<^verbatim>\<open>undefined\<close>, here \<open>None\<close>, from construction until \<^verbatim>\<open>processPopup\<close> or
  \<^verbatim>\<open>getRedirectResult\<close> assigns it.
\<close>

record Resolver =
  redirectOutcomeHandler :: RedirectManager
  popupOutcomeHandler :: PopupResultManager
  auth :: "Auth option"
  host :: Host
  calls :: "Call list"

definition logCall :: "Call \<Rightarrow> Resolver \<Rightarrow> Resolver" where
  "logCall c r = r\<lparr>calls := calls r @ [c]\<rparr>"

text \<open>
  \<^verbatim>\<open>handler.broadcastResult(cred, error)\<close> on the handler \<open>h\<close>, while the event with
  id \<open>eid\<close> is being processed.
\<close>

definition broadcastResult ::
  "Handler \<Rightarrow> string option \<Rightarrow> UserCredential option \<Rightarrow> Error option \<Rightarrow> Resolver
     \<Rightarrow> Resolver" where
  "broadcastResult h eid cred err r =
     (let r1 = logCall (BroadcastResult h cred err) r
      in case h of
           PopupHandler \<Rightarrow>
             r1\<lparr>popupOutcomeHandler :=
                  popupBroadcastResult eid cred err (popupOutcomeHandler r1)\<rparr>
         | RedirectHandler \<Rightarrow>
             r1\<lparr>redirectOutcomeHandler :=
                  redirectBroadcastResult cred err (redirectOutcomeHandler r1)\<rparr>)"

section \<open>The event router\<close>

text \<open>
  \<^verbatim>\<open>
  private userForEvent(id: string|null): User | undefined {
    return this.auth
      .getPotentialRedirectUsers_()
      .find(u => u.redirectEventId_ === id);
  }
  \<close>
  Reading \<^verbatim>\<open>getPotentialRedirectUsers_\<close> of an \<^verbatim>\<open>undefined\<close> \<^verbatim>\<open>this.auth\<close> throws a
  \<^verbatim>\<open>TypeError\<close>.
\<close>

definition userForEvent :: "Resolver \<Rightarrow> string option \<Rightarrow> Error + User option" where
  "userForEvent r eid =
     (case auth r of
        None \<Rightarrow> Inl TypeError
      | Some a \<Rightarrow> Inr (find (\<lambda>u. redirectEventId u = eid) (getPotentialRedirectUsers a)))"

text \<open>
  \<^verbatim>\<open>getOutcomeHandler\<close>: the three popup types own the popup handler, the three
  redirect types the redirect handler, and the \<^verbatim>\<open>default\<close> branch throws.
\<close>

definition getOutcomeHandler :: "AuthEventType \<Rightarrow> Error + Handler" where
  "getOutcomeHandler eventType =
     (case eventType of
        SIGN_IN_VIA_POPUP \<Rightarrow> Inr PopupHandler
      | LINK_VIA_POPUP \<Rightarrow> Inr PopupHandler
      | REAUTH_VIA_POPUP \<Rightarrow> Inr PopupHandler
      | SIGN_IN_VIA_REDIRECT \<Rightarrow> Inr RedirectHandler
      | LINK_VIA_REDIRECT \<Rightarrow> Inr RedirectHandler
      | REAUTH_VIA_REDIRECT \<Rightarrow> Inr RedirectHandler
      | _ \<Rightarrow> Inl (AuthError INTERNAL_ERROR ''TODO''))"

text \<open>\<^verbatim>\<open>x || undefined\<close> on an optional string: the empty string is falsy.\<close>

definition orUndefined :: "string option \<Rightarrow> string option" where
  "orUndefined x = (case x of None \<Rightarrow> None | Some s \<Rightarrow> if s = [] then None else Some s)"

definition idpTaskParams :: "Resolver \<Rightarrow> AuthEvent \<Rightarrow> User option \<Rightarrow> IdpTaskParams" where
  "idpTaskParams r event u =
     \<lparr>requestUri = urlResponse event,
      IdpTaskParams.sessionId = sessionId event,
      IdpTaskParams.auth = auth r,
      IdpTaskParams.tenantId = orUndefined (tenantId event),
      IdpTaskParams.postBody = orUndefined (postBody event),
      user = u\<rparr>"

text \<open>
  \<^verbatim>\<open>execIdpTask\<close>. The module \<^verbatim>\<open>idp\<close> is a parameter: \<open>idp task params\<close> is how
  the promise of \<^verbatim>\<open>task(params)\<close> settles, \<open>Inl e\<close> when the task throws or rejects
  with \<open>e\<close>. The handler is looked up before the \<^verbatim>\<open>try\<close>, so its \<^verbatim>\<open>throw\<close> rejects
  the promise of \<^verbatim>\<open>execIdpTask\<close> itself and the task is never called.
\<close>

definition execIdpTask ::
  "(IdpTask \<Rightarrow> IdpTaskParams \<Rightarrow> Error + UserCredential option) \<Rightarrow> Resolver \<Rightarrow> AuthEvent
     \<Rightarrow> IdpTask \<Rightarrow> User option \<Rightarrow> (Error + unit) \<times> Resolver" where
  "execIdpTask idp r event task u =
     (let params = idpTaskParams r event u
      in case getOutcomeHandler (type event) of
           Inl e \<Rightarrow> (Inl e, r)
         | Inr outcomeHandler \<Rightarrow>
             (let r1 = logCall (IdpTaskCall task params) r
              in case idp task params of
                   Inr cred \<Rightarrow>
                     (Inr (), broadcastResult outcomeHandler (eventId event) cred None r1)
                 | Inl e \<Rightarrow>
                     (Inr (),
                      broadcastResult outcomeHandler (eventId event) None (Some e) r1)))"

text \<open>
  \<^verbatim>\<open>this.popupOutcomeHandler.isMatchingEvent(event.eventId)\<close>, as a call of the router.
\<close>

definition callIsMatchingEvent :: "Resolver \<Rightarrow> string option \<Rightarrow> bool \<times> Resolver" where
  "callIsMatchingEvent r eid =
     (isMatchingEvent (popupOutcomeHandler r) eid, logCall (IsMatchingEvent eid) r)"

text \<open>
  \<^verbatim>\<open>onEvent\<close>. The result is what the returned promise settles with: a \<^verbatim>\<open>throw\<close>
  in the body rejects it. The router does not await \<^verbatim>\<open>execIdpTask\<close>, so the result of
  that call, a rejection included, is dropped. The model runs the continuation of the
  task to its end within the same step: the state returned is the one in which the
  outcome of the task has been forwarded. The \<^verbatim>\<open>SIGN_IN_VIA_POPUP\<close> case breaks when
  the popup handler does not match and otherwise falls through into the
  \<^verbatim>\<open>SIGN_IN_VIA_REDIRECT\<close> case.
\<close>

definition onEvent ::
  "(IdpTask \<Rightarrow> IdpTaskParams \<Rightarrow> Error + UserCredential option) \<Rightarrow> Resolver \<Rightarrow> AuthEvent
     \<Rightarrow> (Error + bool) \<times> Resolver" where
  "onEvent idp r event =
     (if error event \<noteq> None \<and> type event \<noteq> UNKNOWN then
        (case getOutcomeHandler (type event) of
           Inl e \<Rightarrow> (Inl e, r)
         | Inr h \<Rightarrow> (Inr True, broadcastResult h (eventId event) None (error event) r))
      else
        (case userForEvent r (eventId event) of
           Inl e \<Rightarrow> (Inl e, r)
         | Inr potentialUser \<Rightarrow>
             (case type event of
                SIGN_IN_VIA_POPUP \<Rightarrow>
                  (let (matching, r1) = callIsMatchingEvent r (eventId event)
                   in if \<not> matching then (Inr True, r1)
                      else (Inr True, snd (execIdpTask idp r1 event signIn None)))
              | SIGN_IN_VIA_REDIRECT \<Rightarrow>
                  (Inr True, snd (execIdpTask idp r event signIn None))
              | LINK_VIA_POPUP \<Rightarrow>
                  (case potentialUser of
                     Some u \<Rightarrow> (Inr True, snd (execIdpTask idp r event link (Some u)))
                   | None \<Rightarrow> (Inr True, r))
              | LINK_VIA_REDIRECT \<Rightarrow>
                  (case potentialUser of
                     Some u \<Rightarrow> (Inr True, snd (execIdpTask idp r event link (Some u)))
                   | None \<Rightarrow> (Inr True, r))
              | REAUTH_VIA_POPUP \<Rightarrow>
                  (case potentialUser of
                     Some u \<Rightarrow> (Inr True, snd (execIdpTask idp r event reauth (Some u)))
                   | None \<Rightarrow> (Inr True, r))
              | REAUTH_VIA_REDIRECT \<Rightarrow>
                  (case potentialUser of
                     Some u \<Rightarrow> (Inr True, snd (execIdpTask idp r event reauth (Some u)))
                   | None \<Rightarrow> (Inr True, r))
              | UNKNOWN \<Rightarrow> (Inr True, r))))"

section \<open>Starting a flow\<close>

text \<open>
  Modelled from the spec: \<^verbatim>\<open>this.isInitialized()\<close>, as a call of the router; the
  host answers with its field \<open>initialized\<close>.
\<close>

definition isInitialized :: "Resolver \<Rightarrow> bool \<times> Resolver" where
  "isInitialized r = (initialized (host r), logCall IsInitialized r)"

text \<open>
  Modelled from the spec: \<^verbatim>\<open>this.initializeAndWait(auth)\<close>, the call itself. It
  returns a promise that has not settled yet; the initialization is in progress.
\<close>

definition initializeAndWait :: "Resolver \<Rightarrow> Auth \<Rightarrow> Resolver" where
  "initializeAndWait r a =
     logCall (InitializeAndWait a) (r\<lparr>host := (host r)\<lparr>initializing := True\<rparr>\<rparr>)"

text \<open>
  \<^verbatim>\<open>await\<close> on the promise of \<^verbatim>\<open>initializeAndWait\<close>: the code after the
  \<^verbatim>\<open>await\<close> runs on the state in which the promise has settled. Modelled from the
  spec: when the promise is fulfilled the host is initialized. When it is rejected the
  \<^verbatim>\<open>await\<close> throws.
\<close>

definition awaitInitializeAndWait :: "Resolver \<Rightarrow> (Error + unit) \<times> Resolver" where
  "awaitInitializeAndWait r =
     (case initializeOutcome (host r) of
        None \<Rightarrow>
          (Inr (),
           logCall (InitializeAndWaitSettled None)
             (r\<lparr>host := (host r)\<lparr>initializing := False, initialized := True\<rparr>\<rparr>))
      | Some e \<Rightarrow>
          (Inl e,
           logCall (InitializeAndWaitSettled (Some e))
             (r\<lparr>host := (host r)\<lparr>initializing := False\<rparr>\<rparr>)))"

text \<open>
  Modelled from the spec: \<^verbatim>\<open>await this.openPopup(auth, provider, authType, eventId)\<close>
  yields a new window handle, or throws when the host cannot open the popup.
\<close>

definition openPopup ::
  "Resolver \<Rightarrow> Auth \<Rightarrow> AuthProvider \<Rightarrow> AuthEventType \<Rightarrow> string option
     \<Rightarrow> (Error + AuthPopup) \<times> Resolver" where
  "openPopup r a provider authType eid =
     (let r1 = logCall (OpenPopup a provider authType eid) r
      in case openPopupOutcome (host r1) of
           Some e \<Rightarrow> (Inl e, r1)
         | None \<Rightarrow>
             (Inr \<lparr>window = nextWindow (host r1), associatedEvent = None\<rparr>,
              r1\<lparr>host := (host r1)\<lparr>nextWindow := Suc (nextWindow (host r1))\<rparr>\<rparr>))"

text \<open>\<^verbatim>\<open>eventId || null\<close>: the empty string is falsy.\<close>

definition orNull :: "string option \<Rightarrow> string option" where
  "orNull x = (case x of None \<Rightarrow> None | Some s \<Rightarrow> if s = [] then None else Some s)"

text \<open>
  The opener \<^verbatim>\<open>processPopup\<close> hands to the popup handler:
  \<^verbatim>\<open>
  async () => {
    if (!this.isInitialized()) {
      await this.initializeAndWait(auth);
    }
    const win = await this.openPopup(auth, provider, authType, eventId);
    win.associatedEvent = eventId || null;
    return win;
  }
  \<close>
\<close>

definition popupOpener ::
  "Resolver \<Rightarrow> Auth \<Rightarrow> AuthProvider \<Rightarrow> AuthEventType \<Rightarrow> string option
     \<Rightarrow> (Error + AuthPopup) \<times> Resolver" where
  "popupOpener r a provider authType eid =
     (let (isInit, r1) = isInitialized r;
          (ready, r2) =
            (if \<not> isInit then awaitInitializeAndWait (initializeAndWait r1 a)
             else (Inr (), r1))
      in case ready of
           Inl e \<Rightarrow> (Inl e, r2)
         | Inr _ \<Rightarrow>
             (case openPopup r2 a provider authType eid of
                (Inl e, r3) \<Rightarrow> (Inl e, r3)
              | (Inr win, r3) \<Rightarrow> (Inr (win\<lparr>associatedEvent := orNull eid\<rparr>), r3)))"

text \<open>
  Modelled from the spec: \<^verbatim>\<open>getNewPendingPromise(opener)\<close> of the Popup handler
  "registers a new Pending Operation, invokes \<^verbatim>\<open>opener\<close> and returns a promise bound to
  that operation", the operation being "correlated later by eventId supplied by the
  caller". The model is given that event id as \<open>eid\<close>. First the handler alone:
\<close>

definition popupRegister :: "string option \<Rightarrow> PopupResultManager \<Rightarrow> Promise \<times> PopupResultManager" where
  "popupRegister eid h =
     (popupNext h,
      h\<lparr>popupPending := AList.update eid (popupNext h) (popupPending h),
        popupNext := Suc (popupNext h)\<rparr>)"

definition getNewPendingPromise ::
  "string option \<Rightarrow> (Resolver \<Rightarrow> (Error + AuthPopup) \<times> Resolver) \<Rightarrow> Resolver
     \<Rightarrow> Promise \<times> Resolver" where
  "getNewPendingPromise eid opener r =
     (let (p, h) = popupRegister eid (popupOutcomeHandler r);
          r1 = r\<lparr>popupOutcomeHandler := h\<rparr>
      in (p, snd (opener r1)))"

text \<open>
  \<^verbatim>\<open>processPopup\<close>: stores \<^verbatim>\<open>auth\<close>, then asks the popup handler for a new pending
  promise. The operation is keyed by \<^verbatim>\<open>eventId || null\<close>, the value the opener writes
  into the window.
\<close>

definition processPopup ::
  "Resolver \<Rightarrow> Auth \<Rightarrow> AuthProvider \<Rightarrow> AuthEventType \<Rightarrow> string option
     \<Rightarrow> Promise \<times> Resolver" where
  "processPopup r a provider authType eid =
     getNewPendingPromise (orNull eid) (\<lambda>r'. popupOpener r' a provider authType eid)
       (r\<lparr>auth := Some a\<rparr>)"

text \<open>
  The initializer \<^verbatim>\<open>getRedirectResult\<close> hands to the redirect handler:
  \<^verbatim>\<open>
  () => {
    if (!this.isInitialized()) {
      this.initializeAndWait(auth);
    }
  }
  \<close>
  The promise of \<^verbatim>\<open>initializeAndWait\<close> is neither awaited nor returned.
\<close>

definition redirectInitializer :: "Resolver \<Rightarrow> Auth \<Rightarrow> Resolver" where
  "redirectInitializer r a =
     (let (isInit, r1) = isInitialized r
      in if \<not> isInit then initializeAndWait r1 a else r1)"

text \<open>
  Modelled from the spec: \<^verbatim>\<open>getRedirectPromiseOrInit(initializer)\<close> "returns the
  existing pending/settled result if one already exists, otherwise registers a new one and
  runs \<^verbatim>\<open>initializer\<close> once". A handler creates one promise in its life, promise \<open>0\<close>.
\<close>

definition getRedirectPromiseOrInit ::
  "(Resolver \<Rightarrow> Resolver) \<Rightarrow> Resolver \<Rightarrow> Promise \<times> Resolver" where
  "getRedirectPromiseOrInit initializer r =
     (case redirectOutcome (redirectOutcomeHandler r) of
        Some p \<Rightarrow> (p, r)
      | None \<Rightarrow>
          (let r1 = r\<lparr>redirectOutcomeHandler :=
                       (redirectOutcomeHandler r)
                         \<lparr>redirectOutcome := Some 0, redirectPending := Some 0\<rparr>\<rparr>
           in (0, initializer r1)))"

definition getRedirectResult :: "Resolver \<Rightarrow> Auth \<Rightarrow> Promise \<times> Resolver" where
  "getRedirectResult r a =
     getRedirectPromiseOrInit (\<lambda>r'. redirectInitializer r' a) (r\<lparr>auth := Some a\<rparr>)"

section \<open>Observing a run\<close>

text \<open>The calls made on the way from the state \<open>r\<close> to the state \<open>r'\<close>.\<close>

definition callsOf :: "Resolver \<Rightarrow> Resolver \<Rightarrow> Call list" where
  "callsOf r r' = drop (length (calls r)) (calls r')"

text \<open>The call by which \<^verbatim>\<open>execIdpTask\<close> forwards the way a task settled.\<close>

definition outcomeCall :: "Handler \<Rightarrow> Error + UserCredential option \<Rightarrow> Call" where
  "outcomeCall h res =
     (case res of
        Inr cred \<Rightarrow> BroadcastResult h cred None
      | Inl e \<Rightarrow> BroadcastResult h None (Some e))"

text \<open>The operations a caller or the transport performs on a resolver, and their runs.\<close>

datatype Operation =
    ProcessPopup Auth AuthProvider AuthEventType "string option"
  | GetRedirectResult Auth
  | OnEvent AuthEvent

fun perform ::
  "(IdpTask \<Rightarrow> IdpTaskParams \<Rightarrow> Error + UserCredential option) \<Rightarrow> Resolver \<Rightarrow> Operation
     \<Rightarrow> Resolver" where
  "perform idp r (ProcessPopup a provider authType eid) =
     snd (processPopup r a provider authType eid)"
| "perform idp r (GetRedirectResult a) = snd (getRedirectResult r a)"
| "perform idp r (OnEvent event) = snd (onEvent idp r event)"

definition performAll ::
  "(IdpTask \<Rightarrow> IdpTaskParams \<Rightarrow> Error + UserCredential option) \<Rightarrow> Resolver \<Rightarrow> Operation list
     \<Rightarrow> Resolver" where
  "performAll idp r ops = foldl (perform idp) r ops"

text \<open>The task the router runs for a link or a reauthentication event type.\<close>

definition taskFor :: "AuthEventType \<Rightarrow> IdpTask" where
  "taskFor t = (if t = LINK_VIA_POPUP \<or> t = LINK_VIA_REDIRECT then link else reauth)"

subsection \<open>Invariants of the outcome handlers\<close>

text \<open>
  In the popup handler no promise is settled twice, no promise is held by two Pending
  Operations, every promise was handed out before, and a settled promise is held by no
  Pending Operation.
\<close>

definition popupInv :: "PopupResultManager \<Rightarrow> bool" where
  "popupInv h \<longleftrightarrow>
     distinct (map fst (popupSettled h)) \<and>
     distinct (map snd (popupPending h)) \<and>
     (\<forall>p\<in>fst ` set (popupSettled h). p < popupNext h) \<and>
     (\<forall>p\<in>snd ` set (popupPending h). p < popupNext h) \<and>
     (\<forall>p\<in>fst ` set (popupSettled h). p \<notin> snd ` set (popupPending h))"

text \<open>
  In the redirect handler at most one settlement is ever logged, and none while the
  Pending Operation exists or before a promise was created.
\<close>

definition redirectInv :: "RedirectManager \<Rightarrow> bool" where
  "redirectInv h \<longleftrightarrow>
     length (redirectSettled h) \<le> 1 \<and>
     (redirectPending h \<noteq> None \<longrightarrow> redirectSettled h = [] \<and> redirectOutcome h \<noteq> None) \<and>
     (redirectOutcome h = None \<longrightarrow> redirectSettled h = [])"

subsection \<open>Concrete values\<close>

text \<open>
  The resolver as its constructor leaves it on the host \<open>hst\<close>: fresh handlers, no auth
  context, no call made.
\<close>

definition newResolver :: "Host \<Rightarrow> Resolver" where
  "newResolver hst =
     \<lparr>redirectOutcomeHandler = newRedirectManager,
      popupOutcomeHandler = newPopupResultManager,
      auth = None, host = hst, calls = []\<rparr>"

text \<open>
  A host that has not been initialized; one cached user who started a link flow; an
  auth context that caches that user; an IdP module whose sign-in succeeds, whose link
  fails and whose reauthentication yields no credential; an event with a response and a
  session id.
\<close>

definition coldHost :: Host where
  "coldHost =
     \<lparr>initialized = False, initializing = False, initializeOutcome = None,
      openPopupOutcome = None, nextWindow = 0\<rparr>"

definition alice :: User where
  "alice = \<lparr>uid = ''alice'', redirectEventId = Some ''link-1''\<rparr>"

definition appAuth :: Auth where
  "appAuth = \<lparr>name = ''app'', getPotentialRedirectUsers = [alice]\<rparr>"

definition sampleIdp :: "IdpTask \<Rightarrow> IdpTaskParams \<Rightarrow> Error + UserCredential option" where
  "sampleIdp task params =
     (case task of
        signIn \<Rightarrow> Inr (Some (UserCredential ''credential''))
      | link \<Rightarrow> Inl (Thrown ''exchange failed'')
      | reauth \<Rightarrow> Inr None)"

definition sampleEvent :: "AuthEventType \<Rightarrow> string option \<Rightarrow> Error option \<Rightarrow> AuthEvent" where
  "sampleEvent t eid err =
     \<lparr>type = t, eventId = eid, urlResponse = Some ''https://idp/callback?code=1'',
      sessionId = Some ''s1'', postBody = None, tenantId = None, error = err\<rparr>"

text \<open>
  A new resolver in which the auth context has been stored, and one in which moreover a
  popup flow with the event id \<open>eid\<close> is pending.
\<close>

definition appResolver :: Resolver where
  "appResolver = (newResolver coldHost)\<lparr>auth := Some appAuth\<rparr>"

definition pendingPopup :: "string \<Rightarrow> Resolver" where
  "pendingPopup eid =
     appResolver
       \<lparr>popupOutcomeHandler := snd (popupRegister (Some eid) newPopupResultManager)\<rparr>"

section \<open>Calls made by the router\<close>

lemma callsOf_append: "calls r' = calls r @ cs \<Longrightarrow> callsOf r r' = cs"
  by (simp add: callsOf_def)

lemma calls_broadcastResult:
  "calls (broadcastResult h eid cred err r) = calls r @ [BroadcastResult h cred err]"
  by (cases h) (simp_all add: broadcastResult_def logCall_def Let_def)

lemma getOutcomeHandler_Inr: "t \<noteq> UNKNOWN \<Longrightarrow> \<exists>h. getOutcomeHandler t = Inr h"
  by (cases t) (simp_all add: getOutcomeHandler_def)

lemma execIdpTask_known:
  "getOutcomeHandler (type event) = Inr h \<Longrightarrow>
   execIdpTask idp r event task u =
     (Inr (),
      case idp task (idpTaskParams r event u) of
        Inr cred \<Rightarrow>
          broadcastResult h (eventId event) cred None
            (logCall (IdpTaskCall task (idpTaskParams r event u)) r)
      | Inl e \<Rightarrow>
          broadcastResult h (eventId event) None (Some e)
            (logCall (IdpTaskCall task (idpTaskParams r event u)) r))"
  by (simp add: execIdpTask_def Let_def split: sum.splits)

lemma calls_execIdpTask:
  "getOutcomeHandler (type event) = Inr h \<Longrightarrow>
   calls (snd (execIdpTask idp r event task u)) =
     calls r @ [IdpTaskCall task (idpTaskParams r event u),
                outcomeCall h (idp task (idpTaskParams r event u))]"
  by (simp add: execIdpTask_known calls_broadcastResult outcomeCall_def logCall_def
           split: sum.splits)

lemma idpTaskParams_calls [simp]:
  "idpTaskParams (r\<lparr>calls := cs\<rparr>) event u = idpTaskParams r event u"
  by (simp add: idpTaskParams_def)

lemma idpTaskParams_type [simp]:
  "idpTaskParams r (event\<lparr>type := t\<rparr>) u = idpTaskParams r event u"
  by (simp add: idpTaskParams_def)

lemma outcomeCall_not_task [simp]:
  "outcomeCall h res \<noteq> IdpTaskCall t p" "IdpTaskCall t p \<noteq> outcomeCall h res"
  by (simp_all add: outcomeCall_def split: sum.splits)

lemma outcomeCall_not_matching [simp]:
  "outcomeCall h res \<noteq> IsMatchingEvent x" "IsMatchingEvent x \<noteq> outcomeCall h res"
  by (simp_all add: outcomeCall_def split: sum.splits)

lemma outcomeCall_not_isInitialized [simp]:
  "outcomeCall h res \<noteq> IsInitialized" "IsInitialized \<noteq> outcomeCall h res"
  by (simp_all add: outcomeCall_def split: sum.splits)

lemma userForEvent_stored:
  "auth r = Some a \<Longrightarrow>
   userForEvent r eid =
     Inr (find (\<lambda>u. redirectEventId u = eid) (getPotentialRedirectUsers a))"
  by (simp add: userForEvent_def)

lemma userForEvent_unset: "auth r = None \<Longrightarrow> userForEvent r eid = Inl TypeError"
  by (simp add: userForEvent_def)

lemma userForEvent_Inr: "auth r \<noteq> None \<Longrightarrow> \<exists>pu. userForEvent r eid = Inr pu"
  by (auto simp add: userForEvent_def)

lemma userForEvent_Inr_auth: "userForEvent r eid = Inr pu \<Longrightarrow> auth r \<noteq> None"
  by (auto simp add: userForEvent_def split: option.splits)

lemma find_Some_iff_ex: "(\<exists>x. find P xs = Some x) \<longleftrightarrow> (\<exists>x\<in>set xs. P x)"
  by (induction xs) auto

lemma userForEvent_iff:
  "auth r = Some a \<Longrightarrow>
   (\<exists>u. userForEvent r eid = Inr (Some u)) \<longleftrightarrow>
   (\<exists>u\<in>set (getPotentialRedirectUsers a). redirectEventId u = eid)"
  by (simp add: userForEvent_stored find_Some_iff_ex)

text \<open>
  Past the error short-circuit, a resolver whose auth context is not stored rejects the
  event and makes no call.
\<close>

lemma onEvent_unset:
  assumes "auth r = None" and "error event = None \<or> type event = UNKNOWN"
  shows "onEvent idp r event = (Inl TypeError, r)"
  using assms by (auto simp add: onEvent_def userForEvent_unset)

lemma onEvent_unknown:
  assumes "type event = UNKNOWN" and "auth r \<noteq> None"
  shows "onEvent idp r event = (Inr True, r)"
  using assms userForEvent_Inr [of r "eventId event"] by (auto simp add: onEvent_def)

lemma onEvent_popup_sign_in:
  assumes "type event = SIGN_IN_VIA_POPUP" and "error event = None" and "auth r \<noteq> None"
  shows "onEvent idp r event =
           (Inr True,
            if isMatchingEvent (popupOutcomeHandler r) (eventId event)
            then snd (execIdpTask idp (logCall (IsMatchingEvent (eventId event)) r) event
                        signIn None)
            else logCall (IsMatchingEvent (eventId event)) r)"
  using assms userForEvent_Inr [of r "eventId event"]
  by (auto simp add: onEvent_def callIsMatchingEvent_def)

lemma onEvent_redirect_sign_in:
  assumes "type event = SIGN_IN_VIA_REDIRECT" and "error event = None" and "auth r \<noteq> None"
  shows "onEvent idp r event = (Inr True, snd (execIdpTask idp r event signIn None))"
  using assms userForEvent_Inr [of r "eventId event"] by (auto simp add: onEvent_def)

lemma onEvent_link_reauth:
  assumes "type event \<in> {LINK_VIA_POPUP, LINK_VIA_REDIRECT, REAUTH_VIA_POPUP, REAUTH_VIA_REDIRECT}"
    and "error event = None"
    and "userForEvent r (eventId event) = Inr pu"
  shows "onEvent idp r event =
           (Inr True,
            case pu of
              Some u \<Rightarrow> snd (execIdpTask idp r event (taskFor (type event)) (Some u))
            | None \<Rightarrow> r)"
  using assms by (auto simp add: onEvent_def taskFor_def split: option.splits)

lemma calls_popup_sign_in:
  assumes "type event = SIGN_IN_VIA_POPUP" and "error event = None" and "auth r \<noteq> None"
  shows "calls (snd (onEvent idp r event)) =
           calls r @
           (if isMatchingEvent (popupOutcomeHandler r) (eventId event)
            then [IsMatchingEvent (eventId event),
                  IdpTaskCall signIn (idpTaskParams r event None),
                  outcomeCall PopupHandler (idp signIn (idpTaskParams r event None))]
            else [IsMatchingEvent (eventId event)])"
proof -
  have h: "getOutcomeHandler (type event) = Inr PopupHandler"
    using assms by (simp add: getOutcomeHandler_def)
  show ?thesis
    by (simp add: onEvent_popup_sign_in [OF assms] calls_execIdpTask [OF h] logCall_def)
qed

lemma calls_redirect_sign_in:
  assumes "type event = SIGN_IN_VIA_REDIRECT" and "error event = None" and "auth r \<noteq> None"
  shows "calls (snd (onEvent idp r event)) =
           calls r @
           [IdpTaskCall signIn (idpTaskParams r event None),
            outcomeCall RedirectHandler (idp signIn (idpTaskParams r event None))]"
proof -
  have h: "getOutcomeHandler (type event) = Inr RedirectHandler"
    using assms by (simp add: getOutcomeHandler_def)
  show ?thesis
    by (simp add: onEvent_redirect_sign_in [OF assms] calls_execIdpTask [OF h])
qed

lemma calls_link_reauth:
  assumes "type event \<in> {LINK_VIA_POPUP, LINK_VIA_REDIRECT, REAUTH_VIA_POPUP, REAUTH_VIA_REDIRECT}"
    and "error event = None"
    and "userForEvent r (eventId event) = Inr pu"
    and "getOutcomeHandler (type event) = Inr h"
  shows "calls (snd (onEvent idp r event)) =
           calls r @
           (case pu of
              Some u \<Rightarrow>
                [IdpTaskCall (taskFor (type event)) (idpTaskParams r event (Some u)),
                 outcomeCall h
                   (idp (taskFor (type event)) (idpTaskParams r event (Some u)))]
            | None \<Rightarrow> [])"
  by (simp add: onEvent_link_reauth [OF assms(1,2,3)] calls_execIdpTask [OF assms(4)]
        split: option.splits)

lemma calls_error_event:
  assumes "error event = Some err" and "getOutcomeHandler (type event) = Inr h"
  shows "calls (snd (onEvent idp r event)) = calls r @ [BroadcastResult h None (Some err)]"
proof -
  have "type event \<noteq> UNKNOWN"
    using assms(2) by (auto simp add: getOutcomeHandler_def)
  with assms show ?thesis
    by (simp add: onEvent_def calls_broadcastResult)
qed

text \<open>All the calls one event makes, in every state of the resolver.\<close>

lemma calls_onEvent:
  "calls (snd (onEvent idp r event)) =
     calls r @
     (if error event \<noteq> None \<and> type event \<noteq> UNKNOWN then
        [BroadcastResult
           (if type event \<in> {SIGN_IN_VIA_POPUP, LINK_VIA_POPUP, REAUTH_VIA_POPUP}
            then PopupHandler else RedirectHandler)
           None (error event)]
      else if auth r = None then []
      else if type event = SIGN_IN_VIA_POPUP then
        (if isMatchingEvent (popupOutcomeHandler r) (eventId event)
         then [IsMatchingEvent (eventId event),
               IdpTaskCall signIn (idpTaskParams r event None),
               outcomeCall PopupHandler (idp signIn (idpTaskParams r event None))]
         else [IsMatchingEvent (eventId event)])
      else if type event = SIGN_IN_VIA_REDIRECT then
        [IdpTaskCall signIn (idpTaskParams r event None),
         outcomeCall RedirectHandler (idp signIn (idpTaskParams r event None))]
      else if type event = UNKNOWN then []
      else
        (case userForEvent r (eventId event) of
           Inr (Some u) \<Rightarrow>
             [IdpTaskCall (taskFor (type event)) (idpTaskParams r event (Some u)),
              outcomeCall
                (if type event \<in> {LINK_VIA_POPUP, REAUTH_VIA_POPUP}
                 then PopupHandler else RedirectHandler)
                (idp (taskFor (type event)) (idpTaskParams r event (Some u)))]
         | _ \<Rightarrow> []))"
proof (cases "error event \<noteq> None \<and> type event \<noteq> UNKNOWN")
  case True
  then obtain err where err: "error event = Some err" by auto
  have h: "getOutcomeHandler (type event) =
             Inr (if type event \<in> {SIGN_IN_VIA_POPUP, LINK_VIA_POPUP, REAUTH_VIA_POPUP}
                  then PopupHandler else RedirectHandler)"
    using True by (cases "type event") (simp_all add: getOutcomeHandler_def)
  from calls_error_event [OF err h] True err show ?thesis by simp
next
  case False
  then have e: "error event = None \<or> type event = UNKNOWN" by auto
  show ?thesis
  proof (cases "auth r = None")
    case True
    with False e show ?thesis by (simp add: onEvent_unset)
  next
    case stored: False
    then obtain pu where pu: "userForEvent r (eventId event) = Inr pu"
      using userForEvent_Inr by blast
    show ?thesis
    proof (cases "type event")
      case UNKNOWN
      with stored show ?thesis by (simp add: onEvent_unknown)
    next
      case SIGN_IN_VIA_POPUP
      with e have n: "error event = None" by simp
      from calls_popup_sign_in [OF SIGN_IN_VIA_POPUP n stored]
      show ?thesis using SIGN_IN_VIA_POPUP n stored by simp
    next
      case SIGN_IN_VIA_REDIRECT
      with e have n: "error event = None" by simp
      from calls_redirect_sign_in [OF SIGN_IN_VIA_REDIRECT n stored]
      show ?thesis using SIGN_IN_VIA_REDIRECT n stored by simp
    next
      case LINK_VIA_POPUP
      with e have n: "error event = None" by simp
      have h: "getOutcomeHandler (type event) = Inr PopupHandler"
        using LINK_VIA_POPUP by (simp add: getOutcomeHandler_def)
      from calls_link_reauth [OF _ n pu h]
      show ?thesis using LINK_VIA_POPUP n stored pu by (simp split: option.splits)
    next
      case LINK_VIA_REDIRECT
      with e have n: "error event = None" by simp
      have h: "getOutcomeHandler (type event) = Inr RedirectHandler"
        using LINK_VIA_REDIRECT by (simp add: getOutcomeHandler_def)
      from calls_link_reauth [OF _ n pu h]
      show ?thesis using LINK_VIA_REDIRECT n stored pu by (simp split: option.splits)
    next
      case REAUTH_VIA_POPUP
      with e have n: "error event = None" by simp
      have h: "getOutcomeHandler (type event) = Inr PopupHandler"
        using REAUTH_VIA_POPUP by (simp add: getOutcomeHandler_def)
      from calls_link_reauth [OF _ n pu h]
      show ?thesis using REAUTH_VIA_POPUP n stored pu by (simp split: option.splits)
    next
      case REAUTH_VIA_REDIRECT
      with e have n: "error event = None" by simp
      have h: "getOutcomeHandler (type event) = Inr RedirectHandler"
        using REAUTH_VIA_REDIRECT by (simp add: getOutcomeHandler_def)
      from calls_link_reauth [OF _ n pu h]
      show ?thesis using REAUTH_VIA_REDIRECT n stored pu by (simp split: option.splits)
    qed
  qed
qed

lemmas callsOf_onEvent = callsOf_append [OF calls_onEvent]

lemma onEvent_never_asks_isInitialized:
  "IsInitialized \<notin> set (callsOf r (snd (onEvent idp r event)))"
  unfolding callsOf_onEvent by (simp split: option.splits sum.splits)

lemma calls_onEvent_prefix:
  "calls (snd (onEvent idp r event)) = calls r @ callsOf r (snd (onEvent idp r event))"
  unfolding callsOf_onEvent by (rule calls_onEvent)

lemma auth_onEvent: "auth (snd (onEvent idp r event)) = auth r"
proof -
  have b: "auth (broadcastResult h eid cred err r') = auth r'" for h eid cred err r'
    by (cases h) (simp_all add: broadcastResult_def logCall_def Let_def)
  have x: "auth (snd (execIdpTask idp r' event task u)) = auth r'" for r' task u
    by (cases "getOutcomeHandler (type event)";
        cases "idp task (idpTaskParams r' event u)")
       (simp_all add: execIdpTask_def Let_def b logCall_def)
  have l: "auth (logCall c r) = auth r" for c
    by (simp add: logCall_def)
  show ?thesis
    by (cases "type event")
       (simp_all add: onEvent_def callIsMatchingEvent_def b x l Let_def
          split: option.splits sum.splits)
qed

section \<open>The handlers keep their invariants\<close>

lemma popupInv_new: "popupInv newPopupResultManager"
  by (simp add: popupInv_def newPopupResultManager_def)

lemma redirectInv_new: "redirectInv newRedirectManager"
  by (simp add: redirectInv_def newRedirectManager_def)

lemma values_update: "snd ` set (AList.update k v al) \<subseteq> insert v (snd ` set al)"
  by (induction al) auto

lemma distinct_values_update:
  "distinct (map snd al) \<Longrightarrow> v \<notin> snd ` set al \<Longrightarrow> distinct (map snd (AList.update k v al))"
proof (induction al)
  case Nil
  then show ?case by simp
next
  case (Cons x al)
  obtain k' v' where x: "x = (k', v')" by (cases x)
  show ?case
  proof (cases "k' = k")
    case True
    with Cons.prems x show ?thesis by auto
  next
    case False
    have "v' \<notin> snd ` set (AList.update k v al)"
      using values_update [of k v al] Cons.prems x by auto
    with False Cons x show ?thesis by auto
  qed
qed

lemma popupInv_register: "popupInv h \<Longrightarrow> popupInv (snd (popupRegister eid h))"
proof -
  assume inv: "popupInv h"
  let ?al = "AList.update eid (popupNext h) (popupPending h)"
  have i1: "distinct (map fst (popupSettled h))"
    and i2: "distinct (map snd (popupPending h))"
    and i3: "\<forall>p\<in>fst ` set (popupSettled h). p < popupNext h"
    and i4: "\<forall>p\<in>snd ` set (popupPending h). p < popupNext h"
    and i5: "\<forall>p\<in>fst ` set (popupSettled h). p \<notin> snd ` set (popupPending h)"
    using inv by (simp_all add: popupInv_def)
  have fresh: "popupNext h \<notin> snd ` set (popupPending h)"
    using i4 by blast
  have sub: "snd ` set ?al \<subseteq> insert (popupNext h) (snd ` set (popupPending h))"
    by (rule values_update)
  have d: "distinct (map snd ?al)"
    using i2 fresh by (rule distinct_values_update)
  have nset: "popupNext h \<notin> fst ` set (popupSettled h)"
    using i3 by blast
  have a: "\<forall>p\<in>fst ` set (popupSettled h). p < Suc (popupNext h)"
    using i3 by (simp add: less_Suc_eq)
  have b: "\<forall>p\<in>snd ` set ?al. p < Suc (popupNext h)"
  proof
    fix p assume "p \<in> snd ` set ?al"
    with sub have "p = popupNext h \<or> p \<in> snd ` set (popupPending h)" by blast
    with i4 show "p < Suc (popupNext h)" by (auto simp: less_Suc_eq)
  qed
  have c: "\<forall>p\<in>fst ` set (popupSettled h). p \<notin> snd ` set ?al"
  proof
    fix p assume p: "p \<in> fst ` set (popupSettled h)"
    from i5 p have "p \<notin> snd ` set (popupPending h)" by (rule bspec)
    moreover from p nset have "p \<noteq> popupNext h" by blast
    ultimately show "p \<notin> snd ` set ?al" using sub by (meson insertE subsetD)
  qed
  have s1: "popupSettled (snd (popupRegister eid h)) = popupSettled h"
    and s2: "popupPending (snd (popupRegister eid h)) = ?al"
    and s3: "popupNext (snd (popupRegister eid h)) = Suc (popupNext h)"
    by (simp_all add: popupRegister_def)
  show ?thesis
    unfolding popupInv_def s1 s2 s3 using i1 d a b c by (intro conjI)
qed

lemma delete_values:
  assumes "distinct (map snd al)" and "map_of al k = Some p"
  shows "p \<notin> snd ` set (AList.delete k al)"
proof
  assume "p \<in> snd ` set (AList.delete k al)"
  then obtain k' where k': "(k', p) \<in> set al" "k' \<noteq> k"
    by (auto simp: AList.delete_eq)
  have kp: "(k, p) \<in> set al" using assms(2) by (rule map_of_SomeD)
  have "inj_on snd (set al)" using assms(1) by (simp add: distinct_map)
  from inj_onD [OF this _ k'(1) kp] have "(k', p) = (k, p)" by simp
  with k'(2) show False by simp
qed

lemma popupInv_broadcast: "popupInv h \<Longrightarrow> popupInv (popupBroadcastResult eid cred err h)"
proof (cases "map_of (popupPending h) eid")
  case None
  assume "popupInv h"
  with None show ?thesis by (simp add: popupBroadcastResult_def)
next
  case (Some p)
  assume inv: "popupInv h"
  let ?al = "AList.delete eid (popupPending h)"
  have i1: "distinct (map fst (popupSettled h))"
    and i2: "distinct (map snd (popupPending h))"
    and i3: "\<forall>p\<in>fst ` set (popupSettled h). p < popupNext h"
    and i4: "\<forall>p\<in>snd ` set (popupPending h). p < popupNext h"
    and i5: "\<forall>p\<in>fst ` set (popupSettled h). p \<notin> snd ` set (popupPending h)"
    using inv by (simp_all add: popupInv_def)
  have mem: "p \<in> snd ` set (popupPending h)"
    using map_of_SomeD [OF Some] by force
  have sub: "snd ` set ?al \<subseteq> snd ` set (popupPending h)"
    by (auto simp: AList.delete_eq)
  have gone: "p \<notin> snd ` set ?al"
    using i2 Some by (rule delete_values)
  have d: "distinct (map snd ?al)"
    using i2 by (simp add: AList.delete_eq distinct_map_filter)
  have new: "p \<notin> fst ` set (popupSettled h)"
    using i5 mem by blast
  have lt: "p < popupNext h"
    using i4 mem by blast
  have a: "distinct (map fst (popupSettled h @ [(p, settlement cred err)]))"
    using i1 new by simp
  have b: "\<forall>q\<in>fst ` set (popupSettled h @ [(p, settlement cred err)]). q < popupNext h"
    using i3 lt by simp
  have c: "\<forall>q\<in>snd ` set ?al. q < popupNext h"
    using i4 sub by blast
  have e: "\<forall>q\<in>fst ` set (popupSettled h @ [(p, settlement cred err)]). q \<notin> snd ` set ?al"
  proof
    fix q assume "q \<in> fst ` set (popupSettled h @ [(p, settlement cred err)])"
    then have "q = p \<or> q \<in> fst ` set (popupSettled h)" by auto
    then show "q \<notin> snd ` set ?al"
    proof
      assume "q = p" with gone show ?thesis by simp
    next
      assume "q \<in> fst ` set (popupSettled h)"
      with i5 have "q \<notin> snd ` set (popupPending h)" by (rule bspec)
      with sub show ?thesis by (meson subsetD)
    qed
  qed
  let ?h' = "popupBroadcastResult eid cred err h"
  have s1: "popupSettled ?h' = popupSettled h @ [(p, settlement cred err)]"
    and s2: "popupPending ?h' = ?al"
    and s3: "popupNext ?h' = popupNext h"
    using Some by (simp_all add: popupBroadcastResult_def)
  show ?thesis
    unfolding popupInv_def s1 s2 s3 using a d b c e by (intro conjI)
qed

lemma redirectInv_broadcast: "redirectInv h \<Longrightarrow> redirectInv (redirectBroadcastResult cred err h)"
  by (auto simp: redirectInv_def redirectBroadcastResult_def split: option.splits)

lemma redirectInv_distinct: "redirectInv h \<Longrightarrow> distinct (map fst (redirectSettled h))"
  by (cases "redirectSettled h") (simp_all add: redirectInv_def)

lemma isMatchingEvent_after_broadcast:
  "\<not> isMatchingEvent (popupBroadcastResult eid cred err h) eid"
  by (simp add: isMatchingEvent_def popupBroadcastResult_def AList.delete_conv
        split: option.splits)

lemma popupBroadcastResult_twice:
  "popupBroadcastResult eid cred' err' (popupBroadcastResult eid cred err h) =
   popupBroadcastResult eid cred err h"
  using isMatchingEvent_after_broadcast [of eid cred err h]
  by (simp add: isMatchingEvent_def popupBroadcastResult_def [of eid cred' err'])

lemma redirectBroadcastResult_twice:
  "redirectBroadcastResult cred' err' (redirectBroadcastResult cred err h) =
   redirectBroadcastResult cred err h"
  by (simp add: redirectBroadcastResult_def split: option.splits)

lemma popupBroadcastResult_length:
  "length (popupSettled (popupBroadcastResult eid cred err h)) =
     (if isMatchingEvent h eid then Suc (length (popupSettled h)) else length (popupSettled h))"
  by (simp add: popupBroadcastResult_def isMatchingEvent_def split: option.splits)

section \<open>What the operations do to the handlers\<close>

lemma popup_of_broadcastResult:
  "popupOutcomeHandler (broadcastResult h eid cred err r) =
     (case h of
        PopupHandler \<Rightarrow> popupBroadcastResult eid cred err (popupOutcomeHandler r)
      | RedirectHandler \<Rightarrow> popupOutcomeHandler r)"
  by (cases h) (simp_all add: broadcastResult_def logCall_def Let_def)

lemma redirect_of_broadcastResult:
  "redirectOutcomeHandler (broadcastResult h eid cred err r) =
     (case h of
        PopupHandler \<Rightarrow> redirectOutcomeHandler r
      | RedirectHandler \<Rightarrow> redirectBroadcastResult cred err (redirectOutcomeHandler r))"
  by (cases h) (simp_all add: broadcastResult_def logCall_def Let_def)

lemma handlers_logCall [simp]:
  "popupOutcomeHandler (logCall c r) = popupOutcomeHandler r"
  "redirectOutcomeHandler (logCall c r) = redirectOutcomeHandler r"
  by (simp_all add: logCall_def)

lemma execIdpTask_preserves_popup:
  assumes "P (popupOutcomeHandler r)"
    and "\<And>eid cred err h. P h \<Longrightarrow> P (popupBroadcastResult eid cred err h)"
  shows "P (popupOutcomeHandler (snd (execIdpTask idp r event task u)))"
proof (cases "getOutcomeHandler (type event)")
  case (Inl e)
  with assms(1) show ?thesis by (simp add: execIdpTask_def)
next
  case (Inr h)
  show ?thesis
    using assms
    by (cases h; cases "idp task (idpTaskParams r event u)")
       (simp_all add: execIdpTask_known [OF Inr] popup_of_broadcastResult)
qed

lemma execIdpTask_preserves_redirect:
  assumes "P (redirectOutcomeHandler r)"
    and "\<And>cred err h. P h \<Longrightarrow> P (redirectBroadcastResult cred err h)"
  shows "P (redirectOutcomeHandler (snd (execIdpTask idp r event task u)))"
proof (cases "getOutcomeHandler (type event)")
  case (Inl e)
  with assms(1) show ?thesis by (simp add: execIdpTask_def)
next
  case (Inr h)
  show ?thesis
    using assms
    by (cases h; cases "idp task (idpTaskParams r event u)")
       (simp_all add: execIdpTask_known [OF Inr] redirect_of_broadcastResult)
qed

lemma onEvent_preserves_popup:
  assumes "P (popupOutcomeHandler r)"
    and "\<And>eid cred err h. P h \<Longrightarrow> P (popupBroadcastResult eid cred err h)"
  shows "P (popupOutcomeHandler (snd (onEvent idp r event)))"
proof (cases "error event \<noteq> None \<and> type event \<noteq> UNKNOWN")
  case True
  then obtain h where h: "getOutcomeHandler (type event) = Inr h"
    using getOutcomeHandler_Inr by blast
  with True assms show ?thesis
    by (cases h) (simp_all add: onEvent_def popup_of_broadcastResult)
next
  case False
  have x: "P (popupOutcomeHandler (snd (execIdpTask idp r' event task u)))"
    if "popupOutcomeHandler r' = popupOutcomeHandler r" for r' task u
  proof (rule execIdpTask_preserves_popup [where P = P])
    show "P (popupOutcomeHandler r')" using that assms(1) by simp
    show "\<And>eid cred err h. P h \<Longrightarrow> P (popupBroadcastResult eid cred err h)"
      by (rule assms(2))
  qed
  show ?thesis
    using False assms(1)
    by (cases "userForEvent r (eventId event)"; cases "type event")
       (simp_all add: onEvent_def callIsMatchingEvent_def x split: option.splits)
qed

lemma onEvent_preserves_redirect:
  assumes "P (redirectOutcomeHandler r)"
    and "\<And>cred err h. P h \<Longrightarrow> P (redirectBroadcastResult cred err h)"
  shows "P (redirectOutcomeHandler (snd (onEvent idp r event)))"
proof (cases "error event \<noteq> None \<and> type event \<noteq> UNKNOWN")
  case True
  then obtain h where h: "getOutcomeHandler (type event) = Inr h"
    using getOutcomeHandler_Inr by blast
  with True assms show ?thesis
    by (cases h) (simp_all add: onEvent_def redirect_of_broadcastResult)
next
  case False
  have x: "P (redirectOutcomeHandler (snd (execIdpTask idp r' event task u)))"
    if "redirectOutcomeHandler r' = redirectOutcomeHandler r" for r' task u
  proof (rule execIdpTask_preserves_redirect [where P = P])
    show "P (redirectOutcomeHandler r')" using that assms(1) by simp
    show "\<And>cred err h. P h \<Longrightarrow> P (redirectBroadcastResult cred err h)"
      by (rule assms(2))
  qed
  show ?thesis
    using False assms(1)
    by (cases "userForEvent r (eventId event)"; cases "type event")
       (simp_all add: onEvent_def callIsMatchingEvent_def x split: option.splits)
qed

lemma popupOpener_handlers:
  "popupOutcomeHandler (snd (popupOpener r a provider authType eid)) = popupOutcomeHandler r"
  "redirectOutcomeHandler (snd (popupOpener r a provider authType eid)) = redirectOutcomeHandler r"
  by (cases "initialized (host r)"; cases "initializeOutcome (host r)";
      cases "openPopupOutcome (host r)";
      simp add: popupOpener_def isInitialized_def initializeAndWait_def
        awaitInitializeAndWait_def openPopup_def logCall_def Let_def)+

lemma processPopup_handlers:
  "popupOutcomeHandler (snd (processPopup r a provider authType eid)) =
     snd (popupRegister (orNull eid) (popupOutcomeHandler r))"
  "redirectOutcomeHandler (snd (processPopup r a provider authType eid)) =
     redirectOutcomeHandler r"
  by (simp_all add: processPopup_def getNewPendingPromise_def popupOpener_handlers
        split: prod.splits)

lemma redirectInitializer_handlers:
  "popupOutcomeHandler (redirectInitializer r a) = popupOutcomeHandler r"
  "redirectOutcomeHandler (redirectInitializer r a) = redirectOutcomeHandler r"
  by (simp_all add: redirectInitializer_def isInitialized_def initializeAndWait_def
        logCall_def)

lemma getRedirectResult_handlers:
  "popupOutcomeHandler (snd (getRedirectResult r a)) = popupOutcomeHandler r"
  "redirectOutcomeHandler (snd (getRedirectResult r a)) =
     (case redirectOutcome (redirectOutcomeHandler r) of
        Some p \<Rightarrow> redirectOutcomeHandler r
      | None \<Rightarrow> (redirectOutcomeHandler r)\<lparr>redirectOutcome := Some 0, redirectPending := Some 0\<rparr>)"
  by (simp_all add: getRedirectResult_def getRedirectPromiseOrInit_def
        redirectInitializer_handlers Let_def split: option.splits)

lemma perform_popupInv:
  "popupInv (popupOutcomeHandler r) \<Longrightarrow> popupInv (popupOutcomeHandler (perform idp r op))"
proof (cases op)
  case (ProcessPopup a provider authType eid)
  assume "popupInv (popupOutcomeHandler r)"
  then show ?thesis
    by (simp add: ProcessPopup processPopup_handlers popupInv_register)
next
  case (GetRedirectResult a)
  assume "popupInv (popupOutcomeHandler r)"
  then show ?thesis by (simp add: GetRedirectResult getRedirectResult_handlers)
next
  case (OnEvent event)
  assume "popupInv (popupOutcomeHandler r)"
  then have "popupInv (popupOutcomeHandler (snd (onEvent idp r event)))"
    by (rule onEvent_preserves_popup [where P = popupInv]) (rule popupInv_broadcast)
  then show ?thesis by (simp add: OnEvent)
qed

lemma perform_redirectInv:
  "redirectInv (redirectOutcomeHandler r) \<Longrightarrow>
   redirectInv (redirectOutcomeHandler (perform idp r op))"
proof (cases op)
  case (ProcessPopup a provider authType eid)
  assume "redirectInv (redirectOutcomeHandler r)"
  then show ?thesis by (simp add: ProcessPopup processPopup_handlers)
next
  case (GetRedirectResult a)
  assume "redirectInv (redirectOutcomeHandler r)"
  then show ?thesis
    by (simp add: GetRedirectResult getRedirectResult_handlers redirectInv_def
          split: option.splits)
next
  case (OnEvent event)
  assume "redirectInv (redirectOutcomeHandler r)"
  then have "redirectInv (redirectOutcomeHandler (snd (onEvent idp r event)))"
    by (rule onEvent_preserves_redirect [where P = redirectInv]) (rule redirectInv_broadcast)
  then show ?thesis by (simp add: OnEvent)
qed

lemma performAll_inv:
  "popupInv (popupOutcomeHandler r) \<Longrightarrow> redirectInv (redirectOutcomeHandler r) \<Longrightarrow>
   popupInv (popupOutcomeHandler (performAll idp r ops)) \<and>
   redirectInv (redirectOutcomeHandler (performAll idp r ops))"
  unfolding performAll_def
  by (induction ops arbitrary: r) (simp_all add: perform_popupInv perform_redirectInv)

section \<open>Calls made when a flow is started\<close>

lemma calls_popupOpener:
  "calls (snd (popupOpener r a provider authType eid)) =
     calls r @
     (if initialized (host r) then [IsInitialized, OpenPopup a provider authType eid]
      else
        (case initializeOutcome (host r) of
           None \<Rightarrow>
             [IsInitialized, InitializeAndWait a, InitializeAndWaitSettled None,
              OpenPopup a provider authType eid]
         | Some e \<Rightarrow>
             [IsInitialized, InitializeAndWait a, InitializeAndWaitSettled (Some e)]))"
  by (cases "initialized (host r)"; cases "initializeOutcome (host r)";
      cases "openPopupOutcome (host r)";
      simp add: popupOpener_def isInitialized_def initializeAndWait_def
        awaitInitializeAndWait_def openPopup_def logCall_def Let_def)

lemma calls_processPopup:
  "calls (snd (processPopup r a provider authType eid)) =
     calls r @
     (if initialized (host r) then [IsInitialized, OpenPopup a provider authType eid]
      else
        (case initializeOutcome (host r) of
           None \<Rightarrow>
             [IsInitialized, InitializeAndWait a, InitializeAndWaitSettled None,
              OpenPopup a provider authType eid]
         | Some e \<Rightarrow>
             [IsInitialized, InitializeAndWait a, InitializeAndWaitSettled (Some e)]))"
  by (simp add: processPopup_def getNewPendingPromise_def calls_popupOpener
        split: prod.splits)

text \<open>
  In \<^verbatim>\<open>processPopup\<close> the popup is opened only on an initialized host: either
  \<^verbatim>\<open>isInitialized()\<close> answered \<open>true\<close>, or the promise of \<^verbatim>\<open>initializeAndWait\<close> was
  fulfilled before \<^verbatim>\<open>openPopup\<close> was called.
\<close>

lemma processPopup_awaits_initialization:
  assumes "\<not> initialized (host r)"
    and "OpenPopup a' provider' authType' eid' \<in>
           set (callsOf r (snd (processPopup r a provider authType eid)))"
  shows "callsOf r (snd (processPopup r a provider authType eid)) =
           [IsInitialized, InitializeAndWait a, InitializeAndWaitSettled None,
            OpenPopup a provider authType eid]"
proof -
  have c: "callsOf r (snd (processPopup r a provider authType eid)) =
     (if initialized (host r) then [IsInitialized, OpenPopup a provider authType eid]
      else
        (case initializeOutcome (host r) of
           None \<Rightarrow>
             [IsInitialized, InitializeAndWait a, InitializeAndWaitSettled None,
              OpenPopup a provider authType eid]
         | Some e \<Rightarrow>
             [IsInitialized, InitializeAndWait a, InitializeAndWaitSettled (Some e)]))"
    by (rule callsOf_append) (rule calls_processPopup)
  from assms show ?thesis
    unfolding c by (cases "initializeOutcome (host r)") simp_all
qed

lemma calls_redirectInitializer:
  "calls (redirectInitializer r a) =
     calls r @
     (if initialized (host r) then [IsInitialized] else [IsInitialized, InitializeAndWait a])"
  by (simp add: redirectInitializer_def isInitialized_def initializeAndWait_def logCall_def)

lemma calls_getRedirectResult:
  "calls (snd (getRedirectResult r a)) =
     calls r @
     (case redirectOutcome (redirectOutcomeHandler r) of
        Some p \<Rightarrow> []
      | None \<Rightarrow>
          if initialized (host r) then [IsInitialized]
          else [IsInitialized, InitializeAndWait a])"
  by (simp add: getRedirectResult_def getRedirectPromiseOrInit_def
        calls_redirectInitializer Let_def split: option.splits)

lemma host_redirectInitializer:
  "host (redirectInitializer r a) =
     (if initialized (host r) then host r else (host r)\<lparr>initializing := True\<rparr>)"
  by (simp add: redirectInitializer_def isInitialized_def initializeAndWait_def logCall_def)

lemma getRedirectResult_existing:
  "redirectOutcome (redirectOutcomeHandler r) = Some p \<Longrightarrow>
   getRedirectResult r a = (p, r\<lparr>auth := Some a\<rparr>)"
  by (simp add: getRedirectResult_def getRedirectPromiseOrInit_def)

lemma getRedirectResult_outcome:
  "redirectOutcome (redirectOutcomeHandler (snd (getRedirectResult r a))) =
     Some (fst (getRedirectResult r a))"
  by (simp add: getRedirectResult_def getRedirectPromiseOrInit_def
        redirectInitializer_handlers Let_def split: option.splits)

lemma redirectOutcome_broadcast:
  "redirectOutcome (redirectBroadcastResult cred err h) = redirectOutcome h"
  by (simp add: redirectBroadcastResult_def split: option.splits)

lemma redirectOutcome_onEvent:
  "redirectOutcome (redirectOutcomeHandler (snd (onEvent idp r event))) =
     redirectOutcome (redirectOutcomeHandler r)"
  by (rule onEvent_preserves_redirect
        [where P = "\<lambda>h. redirectOutcome h = redirectOutcome (redirectOutcomeHandler r)"])
     (simp_all add: redirectOutcome_broadcast)

lemma performAll_events:
  "redirectOutcome (redirectOutcomeHandler (performAll idp r (map OnEvent events))) =
     redirectOutcome (redirectOutcomeHandler r)
   \<and> (\<exists>cs. calls (performAll idp r (map OnEvent events)) = calls r @ cs \<and>
            IsInitialized \<notin> set cs)"
proof (induction events arbitrary: r)
  case Nil
  show ?case by (simp add: performAll_def)
next
  case (Cons event events)
  let ?r1 = "snd (onEvent idp r event)"
  have p: "performAll idp r (map OnEvent (event # events)) =
             performAll idp ?r1 (map OnEvent events)"
    by (simp add: performAll_def)
  from Cons.IH [of ?r1] obtain cs where
    o: "redirectOutcome (redirectOutcomeHandler (performAll idp ?r1 (map OnEvent events))) =
          redirectOutcome (redirectOutcomeHandler ?r1)"
    and c: "calls (performAll idp ?r1 (map OnEvent events)) = calls ?r1 @ cs"
    and n: "IsInitialized \<notin> set cs"
    by blast
  have "calls (performAll idp ?r1 (map OnEvent events)) =
          calls r @ (callsOf r ?r1 @ cs)"
    using c calls_onEvent_prefix [of idp r event] by simp
  moreover have "IsInitialized \<notin> set (callsOf r ?r1 @ cs)"
    using n onEvent_never_asks_isInitialized [of r idp event] by simp
  ultimately show ?case
    unfolding p using o redirectOutcome_onEvent [of idp r event] by metis
qed

text \<open>
  A resolver that holds a pending popup operation has stored its auth context: only
  \<^verbatim>\<open>processPopup\<close> registers one, after assigning \<^verbatim>\<open>this.auth\<close>.
\<close>

lemma popupPending_broadcast:
  "popupPending (popupBroadcastResult eid cred err h) \<noteq> [] \<Longrightarrow> popupPending h \<noteq> []"
  by (auto simp add: popupBroadcastResult_def AList.delete_eq split: option.splits)

lemma auth_processPopup: "auth (snd (processPopup r a provider authType eid)) = Some a"
  by (cases "initialized (host r)"; cases "initializeOutcome (host r)";
      cases "openPopupOutcome (host r)";
      simp add: processPopup_def getNewPendingPromise_def popupRegister_def
        popupOpener_def isInitialized_def initializeAndWait_def
        awaitInitializeAndWait_def openPopup_def logCall_def Let_def)

lemma auth_getRedirectResult: "auth (snd (getRedirectResult r a)) = Some a"
  by (cases "redirectOutcome (redirectOutcomeHandler r)"; cases "initialized (host r)")
     (simp_all add: getRedirectResult_def getRedirectPromiseOrInit_def
        redirectInitializer_def isInitialized_def initializeAndWait_def logCall_def Let_def)

lemma perform_pending_auth:
  assumes "popupPending (popupOutcomeHandler r) \<noteq> [] \<longrightarrow> auth r \<noteq> None"
  shows "popupPending (popupOutcomeHandler (perform idp r op)) \<noteq> [] \<longrightarrow>
         auth (perform idp r op) \<noteq> None"
proof (cases op)
  case (ProcessPopup a provider authType eid)
  then show ?thesis by (simp add: auth_processPopup)
next
  case (GetRedirectResult a)
  then show ?thesis by (simp add: auth_getRedirectResult)
next
  case (OnEvent event)
  have "popupPending (popupOutcomeHandler (snd (onEvent idp r event))) \<noteq> [] \<longrightarrow>
          auth r \<noteq> None"
  proof (rule onEvent_preserves_popup
           [where P = "\<lambda>h. popupPending h \<noteq> [] \<longrightarrow> auth r \<noteq> None"])
    show "popupPending (popupOutcomeHandler r) \<noteq> [] \<longrightarrow> auth r \<noteq> None"
      by (rule assms)
    show "\<And>eid cred err h. popupPending h \<noteq> [] \<longrightarrow> auth r \<noteq> None \<Longrightarrow>
            popupPending (popupBroadcastResult eid cred err h) \<noteq> [] \<longrightarrow> auth r \<noteq> None"
      using popupPending_broadcast by blast
  qed
  then show ?thesis by (simp add: OnEvent auth_onEvent)
qed

lemma performAll_pending_auth:
  "popupPending (popupOutcomeHandler r) \<noteq> [] \<longrightarrow> auth r \<noteq> None \<Longrightarrow>
   popupPending (popupOutcomeHandler (performAll idp r ops)) \<noteq> [] \<longrightarrow>
   auth (performAll idp r ops) \<noteq> None"
  unfolding performAll_def
proof (induction ops arbitrary: r)
  case Nil
  then show ?case by simp
next
  case (Cons op ops)
  from perform_pending_auth [OF Cons.prems, of idp op]
  have "popupPending (popupOutcomeHandler (foldl (perform idp) (perform idp r op) ops)) \<noteq> [] \<longrightarrow>
          auth (foldl (perform idp) (perform idp r op) ops) \<noteq> None"
    by (rule Cons.IH)
  then show ?case by simp
qed

lemma matching_has_auth:
  assumes "isMatchingEvent (popupOutcomeHandler (performAll idp (newResolver hst) ops)) eid"
  shows "auth (performAll idp (newResolver hst) ops) \<noteq> None"
proof -
  have "popupPending (popupOutcomeHandler (newResolver hst)) \<noteq> [] \<longrightarrow>
          auth (newResolver hst) \<noteq> None"
    by (simp add: newResolver_def newPopupResultManager_def)
  from performAll_pending_auth [OF this, of idp ops] assms show ?thesis
    by (auto simp add: isMatchingEvent_def)
qed

section \<open>Properties of the event router\<close>

text \<open>
  What \<^verbatim>\<open>onEvent\<close> settles with, for every event and every state: it is rejected
  with a \<^verbatim>\<open>TypeError\<close> exactly when the event gets past the error short-circuit on a
  resolver whose auth context is not stored, and fulfilled with \<open>true\<close> otherwise.
\<close>

lemma onEvent_result:
  "fst (onEvent idp r event) =
     (if auth r = None \<and> (error event = None \<or> type event = UNKNOWN)
      then Inl TypeError else Inr True)"
proof (cases "auth r = None \<and> (error event = None \<or> type event = UNKNOWN)")
  case True
  then show ?thesis by (simp add: onEvent_unset)
next
  case False
  show ?thesis
  proof (cases "error event \<noteq> None \<and> type event \<noteq> UNKNOWN")
    case True
    then obtain h where "getOutcomeHandler (type event) = Inr h"
      using getOutcomeHandler_Inr by blast
    with True False show ?thesis by (auto simp add: onEvent_def)
  next
    case e: False
    with False have s: "auth r \<noteq> None" by auto
    then obtain pu where "userForEvent r (eventId event) = Inr pu"
      using userForEvent_Inr by blast
    with e s show ?thesis
      by (cases "type event")
         (auto simp add: onEvent_def callIsMatchingEvent_def split: option.splits)
  qed
qed

text \<open>
  On a resolver whose auth context is stored, an event that carries an error is
  broadcast to its handler, or dropped when its type is \<open>UNKNOWN\<close>; the result is
  \<open>true\<close>.
\<close>

lemma onEvent_error_stored:
  assumes "error event = Some err" and "auth r \<noteq> None"
  shows "(type event \<noteq> UNKNOWN \<longrightarrow>
           (\<exists>h. getOutcomeHandler (type event) = Inr h \<and>
                onEvent idp r event =
                  (Inr True, broadcastResult h (eventId event) None (Some err) r) \<and>
                callsOf r (snd (onEvent idp r event)) = [BroadcastResult h None (Some err)]))
       \<and> (type event = UNKNOWN \<longrightarrow> onEvent idp r event = (Inr True, r))"
proof (cases "type event = UNKNOWN")
  case True
  with assms show ?thesis by (simp add: onEvent_unknown)
next
  case False
  then obtain h where h: "getOutcomeHandler (type event) = Inr h"
    using getOutcomeHandler_Inr by blast
  from False assms h have
    "onEvent idp r event = (Inr True, broadcastResult h (eventId event) None (Some err) r)"
    by (simp add: onEvent_def)
  with False h show ?thesis
    by (simp add: callsOf_append calls_broadcastResult)
qed

text \<open>
  C1: an \<open>UNKNOWN\<close> event that carries an error, delivered to a newly constructed
  resolver, gets past the short-circuit and reaches \<^verbatim>\<open>userForEvent\<close>, which reads
  \<^verbatim>\<open>this.auth\<close> before it was assigned: the promise of \<^verbatim>\<open>onEvent\<close> is rejected with
  a \<^verbatim>\<open>TypeError\<close> instead of being fulfilled with \<open>true\<close>. The same event on a
  resolver that has stored its auth context is dropped and the result is \<open>true\<close>.
\<close>

theorem unknown_error_event_before_auth:
  "onEvent sampleIdp (newResolver coldHost)
     (sampleEvent UNKNOWN None (Some (Thrown ''denied''))) =
     (Inl TypeError, newResolver coldHost)
   \<and> onEvent sampleIdp appResolver (sampleEvent UNKNOWN None (Some (Thrown ''denied''))) =
     (Inr True, appResolver)"
proof -
  let ?e = "sampleEvent UNKNOWN None (Some (Thrown ''denied''))"
  have t: "type ?e = UNKNOWN" by (simp add: sampleEvent_def)
  have n: "auth (newResolver coldHost) = None" by (simp add: newResolver_def)
  have s: "auth appResolver \<noteq> None" by (simp add: appResolver_def)
  from t have "error ?e = None \<or> type ?e = UNKNOWN" by simp
  from onEvent_unset [OF n this] onEvent_unknown [OF t s] show ?thesis by simp
qed

text \<open>
  C6: \<^verbatim>\<open>onEvent\<close> does not return \<open>true\<close> for every event. On a newly constructed
  resolver every event that gets past the error short-circuit (an error-free event, or
  an \<open>UNKNOWN\<close> one) is rejected with the \<^verbatim>\<open>TypeError\<close> of \<^verbatim>\<open>userForEvent\<close>; an
  error-free \<open>SIGN_IN_VIA_POPUP\<close> event is an instance. In every other case the result
  is \<open>true\<close>.
\<close>

theorem onEvent_rejects_before_auth:
  "fst (onEvent idp r event) =
     (if auth r = None \<and> (error event = None \<or> type event = UNKNOWN)
      then Inl TypeError else Inr True)
   \<and> fst (onEvent sampleIdp (newResolver coldHost)
            (sampleEvent SIGN_IN_VIA_POPUP (Some ''abc'') None)) = Inl TypeError"
proof -
  have "auth (newResolver coldHost) = None"
    and "error (sampleEvent SIGN_IN_VIA_POPUP (Some ''abc'') None) = None"
    by (simp_all add: newResolver_def sampleEvent_def)
  then show ?thesis by (simp add: onEvent_result)
qed

text \<open>
  C2: for an error-free \<open>SIGN_IN_VIA_POPUP\<close> event a task is run only when
  \<^verbatim>\<open>isMatchingEvent(event.eventId)\<close> holds of the popup handler, in every state. In
  every state reached from a newly constructed resolver, and in every state whose auth
  context is stored, a task is run exactly when it holds. With the auth context stored
  and the handler matching, the router asks the handler, then runs
  \<^verbatim>\<open>execIdpTask(event, idp.signIn)\<close>: the very invocation, with the same parameters,
  that the \<open>SIGN_IN_VIA_REDIRECT\<close> case makes for an event with the same members. When
  the handler does not match, asking it is the only call and both handlers are left as
  they were.
\<close>

theorem popup_sign_in_iff_matching:
  assumes "type event = SIGN_IN_VIA_POPUP" and "error event = None"
  shows "((\<exists>t p. IdpTaskCall t p \<in> set (callsOf r (snd (onEvent idp r event)))) \<longrightarrow>
            isMatchingEvent (popupOutcomeHandler r) (eventId event))
       \<and> ((\<exists>hst ops. r = performAll idp (newResolver hst) ops) \<or> auth r \<noteq> None \<longrightarrow>
            ((\<exists>t p. IdpTaskCall t p \<in> set (callsOf r (snd (onEvent idp r event)))) \<longleftrightarrow>
               isMatchingEvent (popupOutcomeHandler r) (eventId event)))
       \<and> (auth r \<noteq> None \<and> isMatchingEvent (popupOutcomeHandler r) (eventId event) \<longrightarrow>
            callsOf r (snd (onEvent idp r event)) =
              [IsMatchingEvent (eventId event),
               IdpTaskCall signIn (idpTaskParams r event None),
               outcomeCall PopupHandler (idp signIn (idpTaskParams r event None))] \<and>
            snd (onEvent idp r event) =
              snd (execIdpTask idp (logCall (IsMatchingEvent (eventId event)) r) event
                     signIn None) \<and>
            IdpTaskCall signIn (idpTaskParams r event None) \<in>
              set (callsOf r (snd (onEvent idp r (event\<lparr>type := SIGN_IN_VIA_REDIRECT\<rparr>)))))
       \<and> (auth r \<noteq> None \<and> \<not> isMatchingEvent (popupOutcomeHandler r) (eventId event) \<longrightarrow>
            callsOf r (snd (onEvent idp r event)) = [IsMatchingEvent (eventId event)])
       \<and> (\<not> isMatchingEvent (popupOutcomeHandler r) (eventId event) \<longrightarrow>
            popupOutcomeHandler (snd (onEvent idp r event)) = popupOutcomeHandler r \<and>
            redirectOutcomeHandler (snd (onEvent idp r event)) = redirectOutcomeHandler r)"
proof -
  let ?e' = "event\<lparr>type := SIGN_IN_VIA_REDIRECT\<rparr>"
  let ?m = "isMatchingEvent (popupOutcomeHandler r) (eventId event)"
  let ?task = "\<exists>t p. IdpTaskCall t p \<in> set (callsOf r (snd (onEvent idp r event)))"
  have unset_c: "callsOf r (snd (onEvent idp r event)) = []" if "auth r = None"
    using that assms by (simp add: onEvent_unset callsOf_def)
  have unset_s: "snd (onEvent idp r event) = r" if "auth r = None"
    using that assms by (simp add: onEvent_unset)
  have c: "callsOf r (snd (onEvent idp r event)) =
             (if ?m
              then [IsMatchingEvent (eventId event),
                    IdpTaskCall signIn (idpTaskParams r event None),
                    outcomeCall PopupHandler (idp signIn (idpTaskParams r event None))]
              else [IsMatchingEvent (eventId event)])"
    if "auth r \<noteq> None"
    by (rule callsOf_append) (rule calls_popup_sign_in [OF assms that])
  have "type ?e' = SIGN_IN_VIA_REDIRECT" and "error ?e' = None"
    using assms by simp_all
  then have c': "callsOf r (snd (onEvent idp r ?e')) =
             [IdpTaskCall signIn (idpTaskParams r event None),
              outcomeCall RedirectHandler (idp signIn (idpTaskParams r event None))]"
    if "auth r \<noteq> None"
    using calls_redirect_sign_in [of ?e' r idp] that by (simp add: callsOf_append)
  have s: "snd (onEvent idp r event) =
             (if ?m
              then snd (execIdpTask idp (logCall (IsMatchingEvent (eventId event)) r) event
                          signIn None)
              else logCall (IsMatchingEvent (eventId event)) r)"
    if "auth r \<noteq> None"
    by (simp add: onEvent_popup_sign_in [OF assms that])
  have only: "?task \<longrightarrow> ?m"
  proof (cases "auth r = None")
    case True
    show ?thesis unfolding unset_c [OF True] by simp
  next
    case False
    show ?thesis unfolding c [OF False] by auto
  qed
  have iff: "?task \<longleftrightarrow> ?m" if "auth r \<noteq> None"
    unfolding c [OF that] by auto
  have reach: "?task \<longleftrightarrow> ?m" if "\<exists>hst ops. r = performAll idp (newResolver hst) ops"
  proof (cases "auth r = None")
    case True
    from that obtain hst ops where r: "r = performAll idp (newResolver hst) ops" by blast
    have "\<not> ?m"
      using matching_has_auth [of idp hst ops "eventId event"] True unfolding r by blast
    with only show ?thesis by blast
  next
    case False
    then show ?thesis by (rule iff)
  qed
  have a: "auth r \<noteq> None \<and> ?m \<longrightarrow>
            callsOf r (snd (onEvent idp r event)) =
              [IsMatchingEvent (eventId event),
               IdpTaskCall signIn (idpTaskParams r event None),
               outcomeCall PopupHandler (idp signIn (idpTaskParams r event None))] \<and>
            snd (onEvent idp r event) =
              snd (execIdpTask idp (logCall (IsMatchingEvent (eventId event)) r) event
                     signIn None) \<and>
            IdpTaskCall signIn (idpTaskParams r event None) \<in>
              set (callsOf r (snd (onEvent idp r ?e')))"
  proof
    assume h: "auth r \<noteq> None \<and> ?m"
    then have st: "auth r \<noteq> None" and m: ?m by simp_all
    show "callsOf r (snd (onEvent idp r event)) =
              [IsMatchingEvent (eventId event),
               IdpTaskCall signIn (idpTaskParams r event None),
               outcomeCall PopupHandler (idp signIn (idpTaskParams r event None))] \<and>
            snd (onEvent idp r event) =
              snd (execIdpTask idp (logCall (IsMatchingEvent (eventId event)) r) event
                     signIn None) \<and>
            IdpTaskCall signIn (idpTaskParams r event None) \<in>
              set (callsOf r (snd (onEvent idp r ?e')))"
      unfolding c [OF st] c' [OF st] using m by (simp add: s [OF st])
  qed
  have b: "auth r \<noteq> None \<and> \<not> ?m \<longrightarrow>
            callsOf r (snd (onEvent idp r event)) = [IsMatchingEvent (eventId event)]"
    using c by simp
  have d: "\<not> ?m \<longrightarrow>
            popupOutcomeHandler (snd (onEvent idp r event)) = popupOutcomeHandler r \<and>
            redirectOutcomeHandler (snd (onEvent idp r event)) = redirectOutcomeHandler r"
  proof (cases "auth r = None")
    case True
    show ?thesis by (simp add: unset_s [OF True])
  next
    case False
    show ?thesis by (simp add: s [OF False])
  qed
  from only reach iff a b d show ?thesis by blast
qed

theorem popup_sign_in_iff_matching_witness:
  "type (sampleEvent SIGN_IN_VIA_POPUP (Some ''abc'') None) = SIGN_IN_VIA_POPUP
   \<and> error (sampleEvent SIGN_IN_VIA_POPUP (Some ''abc'') None) = None
   \<and> auth appResolver \<noteq> None
   \<and> \<not> isMatchingEvent (popupOutcomeHandler appResolver) (Some ''abc'')
   \<and> callsOf appResolver
        (snd (onEvent sampleIdp appResolver
               (sampleEvent SIGN_IN_VIA_POPUP (Some ''abc'') None))) =
      [IsMatchingEvent (Some ''abc'')]
   \<and> auth (pendingPopup ''abc'') \<noteq> None
   \<and> isMatchingEvent (popupOutcomeHandler (pendingPopup ''abc'')) (Some ''abc'')
   \<and> (\<exists>p. callsOf (pendingPopup ''abc'')
             (snd (onEvent sampleIdp (pendingPopup ''abc'')
                    (sampleEvent SIGN_IN_VIA_POPUP (Some ''abc'') None))) =
           [IsMatchingEvent (Some ''abc''), IdpTaskCall signIn p,
            BroadcastResult PopupHandler (Some (UserCredential ''credential'')) None])"
proof -
  let ?e = "sampleEvent SIGN_IN_VIA_POPUP (Some ''abc'') None"
  let ?r = "appResolver"
  have t: "type ?e = SIGN_IN_VIA_POPUP" and n: "error ?e = None"
    and i: "eventId ?e = Some ''abc''"
    by (simp_all add: sampleEvent_def)
  have s: "auth ?r \<noteq> None" and s': "auth (pendingPopup ''abc'') \<noteq> None"
    by (simp_all add: appResolver_def pendingPopup_def)
  have m: "\<not> isMatchingEvent (popupOutcomeHandler ?r) (Some ''abc'')"
    by (simp add: appResolver_def newResolver_def newPopupResultManager_def
          isMatchingEvent_def)
  have m': "isMatchingEvent (popupOutcomeHandler (pendingPopup ''abc'')) (Some ''abc'')"
    by (simp add: pendingPopup_def newPopupResultManager_def popupRegister_def
          isMatchingEvent_def)
  have o: "outcomeCall PopupHandler (sampleIdp signIn p) =
             BroadcastResult PopupHandler (Some (UserCredential ''credential'')) None" for p
    by (simp add: outcomeCall_def sampleIdp_def)
  from popup_sign_in_iff_matching [OF t n, of ?r sampleIdp, unfolded i] s m
  have a: "callsOf ?r (snd (onEvent sampleIdp ?r ?e)) = [IsMatchingEvent (Some ''abc'')]"
    by blast
  from popup_sign_in_iff_matching [OF t n, of "pendingPopup ''abc''" sampleIdp, unfolded i]
    s' m'
  have "callsOf (pendingPopup ''abc'') (snd (onEvent sampleIdp (pendingPopup ''abc'') ?e)) =
             [IsMatchingEvent (Some ''abc''),
              IdpTaskCall signIn (idpTaskParams (pendingPopup ''abc'') ?e None),
              outcomeCall PopupHandler
                (sampleIdp signIn (idpTaskParams (pendingPopup ''abc'') ?e None))]"
    by blast
  then have b:
    "callsOf (pendingPopup ''abc'') (snd (onEvent sampleIdp (pendingPopup ''abc'') ?e)) =
             [IsMatchingEvent (Some ''abc''),
              IdpTaskCall signIn (idpTaskParams (pendingPopup ''abc'') ?e None),
              BroadcastResult PopupHandler (Some (UserCredential ''credential'')) None]"
    by (simp only: o)
  from t n s m a s' m' b show ?thesis by blast
qed

text \<open>
  On a resolver whose auth context is stored, an error-free \<open>SIGN_IN_VIA_REDIRECT\<close>
  event runs the sign-in task whatever the popup handler holds.
\<close>

lemma redirect_sign_in_stored:
  assumes "type event = SIGN_IN_VIA_REDIRECT" and "error event = None" and "auth r \<noteq> None"
  shows "fst (onEvent idp r event) = Inr True
       \<and> callsOf r (snd (onEvent idp r event)) =
           [IdpTaskCall signIn (idpTaskParams r event None),
            outcomeCall RedirectHandler (idp signIn (idpTaskParams r event None))]"
proof -
  have "callsOf r (snd (onEvent idp r event)) =
           [IdpTaskCall signIn (idpTaskParams r event None),
            outcomeCall RedirectHandler (idp signIn (idpTaskParams r event None))]"
    by (rule callsOf_append) (rule calls_redirect_sign_in [OF assms])
  moreover have "fst (onEvent idp r event) = Inr True"
    by (simp add: onEvent_redirect_sign_in [OF assms])
  ultimately show ?thesis by simp
qed

text \<open>
  C3: an error-free \<open>SIGN_IN_VIA_REDIRECT\<close> event delivered to a newly constructed
  resolver does not run the sign-in task: \<^verbatim>\<open>userForEvent\<close>, whose result the sign-in
  case never uses, is called before the \<^verbatim>\<open>switch\<close> and throws a \<^verbatim>\<open>TypeError\<close> on
  the unassigned \<^verbatim>\<open>this.auth\<close>, so the promise is rejected, no call is made and the
  resolver is left as it was. The same event on a resolver that has stored its auth
  context runs the task and forwards its credential to the redirect handler.
\<close>

theorem redirect_sign_in_before_auth:
  "onEvent sampleIdp (newResolver coldHost) (sampleEvent SIGN_IN_VIA_REDIRECT None None) =
     (Inl TypeError, newResolver coldHost)
   \<and> callsOf (newResolver coldHost)
        (snd (onEvent sampleIdp (newResolver coldHost)
               (sampleEvent SIGN_IN_VIA_REDIRECT None None))) = []
   \<and> callsOf appResolver
        (snd (onEvent sampleIdp appResolver (sampleEvent SIGN_IN_VIA_REDIRECT None None))) =
      [IdpTaskCall signIn
         (idpTaskParams appResolver (sampleEvent SIGN_IN_VIA_REDIRECT None None) None),
       BroadcastResult RedirectHandler (Some (UserCredential ''credential'')) None]"
proof -
  let ?e = "sampleEvent SIGN_IN_VIA_REDIRECT None None"
  have t: "type ?e = SIGN_IN_VIA_REDIRECT" and e: "error ?e = None"
    by (simp_all add: sampleEvent_def)
  have n: "auth (newResolver coldHost) = None" by (simp add: newResolver_def)
  have s: "auth appResolver \<noteq> None" by (simp add: appResolver_def)
  have o: "outcomeCall RedirectHandler (sampleIdp signIn p) =
             BroadcastResult RedirectHandler (Some (UserCredential ''credential'')) None" for p
    by (simp add: outcomeCall_def sampleIdp_def)
  from e have "error ?e = None \<or> type ?e = UNKNOWN" by simp
  from onEvent_unset [OF n this, of sampleIdp]
  have a: "onEvent sampleIdp (newResolver coldHost) ?e = (Inl TypeError, newResolver coldHost)" .
  then have b: "callsOf (newResolver coldHost)
                  (snd (onEvent sampleIdp (newResolver coldHost) ?e)) = []"
    by (simp add: callsOf_def)
  from redirect_sign_in_stored [OF t e s, of sampleIdp]
  have c: "callsOf appResolver (snd (onEvent sampleIdp appResolver ?e)) =
      [IdpTaskCall signIn (idpTaskParams appResolver ?e None),
       BroadcastResult RedirectHandler (Some (UserCredential ''credential'')) None]"
    by (simp add: o)
  from a b c show ?thesis by (intro conjI)
qed

text \<open>
  On a resolver whose auth context \<open>a\<close> is stored, an error-free link or
  reauthentication event runs its task exactly when \<open>a\<close> caches a user whose
  \<open>redirectEventId\<close> is the event id; it runs no other task, the user passed is the
  one found, and without such a user the resolver is left as it was. The result is
  \<open>true\<close>.
\<close>

lemma link_reauth_stored:
  assumes "type event \<in> {LINK_VIA_POPUP, LINK_VIA_REDIRECT, REAUTH_VIA_POPUP, REAUTH_VIA_REDIRECT}"
    and "error event = None"
    and "auth r = Some a"
  shows "fst (onEvent idp r event) = Inr True
       \<and> ((\<exists>p. IdpTaskCall (taskFor (type event)) p \<in> set (callsOf r (snd (onEvent idp r event))))
            \<longleftrightarrow> (\<exists>u\<in>set (getPotentialRedirectUsers a). redirectEventId u = eventId event))
       \<and> (\<forall>t p. IdpTaskCall t p \<in> set (callsOf r (snd (onEvent idp r event)))
            \<longrightarrow> t = taskFor (type event) \<and> Inr (user p) = userForEvent r (eventId event))
       \<and> ((\<forall>u\<in>set (getPotentialRedirectUsers a). redirectEventId u \<noteq> eventId event)
            \<longrightarrow> snd (onEvent idp r event) = r)"
proof -
  from assms(1) obtain h where h: "getOutcomeHandler (type event) = Inr h"
    using getOutcomeHandler_Inr [of "type event"] by auto
  obtain pu where pu: "userForEvent r (eventId event) = Inr pu"
    using userForEvent_Inr [of r] assms(3) by auto
  have c: "callsOf r (snd (onEvent idp r event)) =
           (case pu of
              Some u \<Rightarrow>
                [IdpTaskCall (taskFor (type event)) (idpTaskParams r event (Some u)),
                 outcomeCall h
                   (idp (taskFor (type event)) (idpTaskParams r event (Some u)))]
            | None \<Rightarrow> [])"
    by (rule callsOf_append) (rule calls_link_reauth [OF assms(1,2) pu h])
  have u: "(\<exists>u\<in>set (getPotentialRedirectUsers a). redirectEventId u = eventId event)
             \<longleftrightarrow> pu \<noteq> None"
    using userForEvent_iff [OF assms(3), of "eventId event"] pu by auto
  have s: "pu = None \<Longrightarrow> snd (onEvent idp r event) = r"
    by (simp add: onEvent_link_reauth [OF assms(1,2) pu])
  have t: "fst (onEvent idp r event) = Inr True"
    by (simp add: onEvent_link_reauth [OF assms(1,2) pu])
  have p: "\<And>u. user (idpTaskParams r event u) = u"
    by (simp add: idpTaskParams_def)
  show ?thesis
    unfolding c pu using u s t p by (auto split: option.splits)
qed

text \<open>
  C4: an error-free \<open>LINK_VIA_POPUP\<close> event that matches no session, delivered to a
  newly constructed resolver, does not "still return true": there is no auth context to
  ask for the cached sessions, \<^verbatim>\<open>userForEvent\<close> throws a \<^verbatim>\<open>TypeError\<close> and the
  promise of \<^verbatim>\<open>onEvent\<close> is rejected. The same event on a resolver that has stored an
  auth context without a matching session runs no task and the result is \<open>true\<close>.
\<close>

theorem link_event_before_auth:
  "onEvent sampleIdp (newResolver coldHost) (sampleEvent LINK_VIA_POPUP (Some ''stale'') None) =
     (Inl TypeError, newResolver coldHost)
   \<and> onEvent sampleIdp appResolver (sampleEvent LINK_VIA_POPUP (Some ''stale'') None) =
     (Inr True, appResolver)"
proof -
  let ?e = "sampleEvent LINK_VIA_POPUP (Some ''stale'') None"
  have t: "type ?e \<in> {LINK_VIA_POPUP, LINK_VIA_REDIRECT, REAUTH_VIA_POPUP, REAUTH_VIA_REDIRECT}"
    and e: "error ?e = None"
    by (simp_all add: sampleEvent_def)
  have n: "auth (newResolver coldHost) = None" by (simp add: newResolver_def)
  have s: "auth appResolver = Some appAuth" by (simp add: appResolver_def)
  have u: "\<forall>u\<in>set (getPotentialRedirectUsers appAuth). redirectEventId u \<noteq> eventId ?e"
    by (simp add: appAuth_def alice_def sampleEvent_def)
  from e have "error ?e = None \<or> type ?e = UNKNOWN" by simp
  from onEvent_unset [OF n this, of sampleIdp]
  have a: "onEvent sampleIdp (newResolver coldHost) ?e = (Inl TypeError, newResolver coldHost)" .
  from link_reauth_stored [OF t e s, of sampleIdp] u
  have "fst (onEvent sampleIdp appResolver ?e) = Inr True"
    and "snd (onEvent sampleIdp appResolver ?e) = appResolver"
    by blast+
  then have b: "onEvent sampleIdp appResolver ?e = (Inr True, appResolver)"
    by (simp add: prod_eq_iff)
  from a b show ?thesis by (intro conjI)
qed

text \<open>
  C5: when \<^verbatim>\<open>execIdpTask\<close> runs a task for an event whose type has an owning handler,
  it makes two calls: the task, and the forwarding of the way the task settled to that
  handler. A task that fails with \<open>e\<close> is forwarded as \<^verbatim>\<open>broadcastResult(null, e)\<close>, a
  task that yields \<open>cred\<close> as \<^verbatim>\<open>broadcastResult(cred)\<close>. In both cases the promise of
  \<^verbatim>\<open>execIdpTask\<close> is fulfilled, and on a resolver whose auth context is stored so is
  the promise of \<^verbatim>\<open>onEvent\<close> for that event.
\<close>

theorem execIdpTask_forwards_outcome:
  assumes "getOutcomeHandler (type event) = Inr h"
  shows "fst (execIdpTask idp r event task u) = Inr ()
       \<and> callsOf r (snd (execIdpTask idp r event task u)) =
           [IdpTaskCall task (idpTaskParams r event u),
            outcomeCall h (idp task (idpTaskParams r event u))]
       \<and> (\<forall>e. idp task (idpTaskParams r event u) = Inl e \<longrightarrow>
            outcomeCall h (idp task (idpTaskParams r event u)) = BroadcastResult h None (Some e) \<and>
            snd (execIdpTask idp r event task u) =
              broadcastResult h (eventId event) None (Some e)
                (logCall (IdpTaskCall task (idpTaskParams r event u)) r))
       \<and> (\<forall>cred. idp task (idpTaskParams r event u) = Inr cred \<longrightarrow>
            outcomeCall h (idp task (idpTaskParams r event u)) = BroadcastResult h cred None \<and>
            snd (execIdpTask idp r event task u) =
              broadcastResult h (eventId event) cred None
                (logCall (IdpTaskCall task (idpTaskParams r event u)) r))
       \<and> (auth r \<noteq> None \<longrightarrow> fst (onEvent idp r event) = Inr True)"
proof -
  have c: "callsOf r (snd (execIdpTask idp r event task u)) =
           [IdpTaskCall task (idpTaskParams r event u),
            outcomeCall h (idp task (idpTaskParams r event u))]"
    by (rule callsOf_append) (rule calls_execIdpTask [OF assms])
  have t: "auth r \<noteq> None \<longrightarrow> fst (onEvent idp r event) = Inr True"
    by (simp add: onEvent_result)
  show ?thesis
    unfolding c using t by (simp add: execIdpTask_known [OF assms] outcomeCall_def)
qed

theorem execIdpTask_forwards_outcome_witness:
  "getOutcomeHandler (type (sampleEvent LINK_VIA_POPUP (Some ''link-1'') None)) =
     Inr PopupHandler
   \<and> fst (execIdpTask sampleIdp appResolver
            (sampleEvent LINK_VIA_POPUP (Some ''link-1'') None) link (Some alice)) = Inr ()
   \<and> (\<exists>p. callsOf appResolver
             (snd (execIdpTask sampleIdp appResolver
                    (sampleEvent LINK_VIA_POPUP (Some ''link-1'') None) link (Some alice))) =
           [IdpTaskCall link p,
            BroadcastResult PopupHandler None (Some (Thrown ''exchange failed''))])
   \<and> auth appResolver \<noteq> None
   \<and> fst (onEvent sampleIdp appResolver
            (sampleEvent LINK_VIA_POPUP (Some ''link-1'') None)) = Inr True"
proof -
  let ?e = "sampleEvent LINK_VIA_POPUP (Some ''link-1'') None"
  let ?r = "appResolver"
  have h: "getOutcomeHandler (type ?e) = Inr PopupHandler"
    by (simp add: sampleEvent_def getOutcomeHandler_def)
  have s: "auth ?r \<noteq> None" by (simp add: appResolver_def)
  have o: "outcomeCall PopupHandler (sampleIdp link p) =
             BroadcastResult PopupHandler None (Some (Thrown ''exchange failed''))" for p
    by (simp add: outcomeCall_def sampleIdp_def)
  note w = execIdpTask_forwards_outcome [OF h, of sampleIdp ?r link "Some alice"]
  from w have a: "fst (execIdpTask sampleIdp ?r ?e link (Some alice)) = Inr ()"
    by blast
  from w have
    "callsOf ?r (snd (execIdpTask sampleIdp ?r ?e link (Some alice))) =
       [IdpTaskCall link (idpTaskParams ?r ?e (Some alice)),
        outcomeCall PopupHandler (sampleIdp link (idpTaskParams ?r ?e (Some alice)))]"
    by blast
  then have b:
    "callsOf ?r (snd (execIdpTask sampleIdp ?r ?e link (Some alice))) =
       [IdpTaskCall link (idpTaskParams ?r ?e (Some alice)),
        BroadcastResult PopupHandler None (Some (Thrown ''exchange failed''))]"
    by (simp only: o)
  from w s have c: "fst (onEvent sampleIdp ?r ?e) = Inr True" by blast
  from h a b s c show ?thesis by blast
qed

text \<open>
  C10: an event that carries an error and whose type is not \<open>UNKNOWN\<close> makes the
  router call \<^verbatim>\<open>broadcastResult(null, error)\<close> on the owning handler as its only call,
  in every state of the resolver: \<^verbatim>\<open>isMatchingEvent\<close> is not asked first. Over all
  events and states, \<^verbatim>\<open>isMatchingEvent\<close> is asked only for an error-free
  \<open>SIGN_IN_VIA_POPUP\<close> event, and on a resolver whose auth context is stored it is
  asked for every such event.
\<close>

theorem error_broadcast_unfiltered:
  "(\<forall>err. error event = Some err \<and> type event \<noteq> UNKNOWN \<longrightarrow>
      (\<exists>h. getOutcomeHandler (type event) = Inr h \<and>
           callsOf r (snd (onEvent idp r event)) = [BroadcastResult h None (Some err)]))
   \<and> ((\<exists>x. IsMatchingEvent x \<in> set (callsOf r (snd (onEvent idp r event))))
        \<longrightarrow> type event = SIGN_IN_VIA_POPUP \<and> error event = None)
   \<and> (auth r \<noteq> None \<longrightarrow>
        ((\<exists>x. IsMatchingEvent x \<in> set (callsOf r (snd (onEvent idp r event))))
           \<longleftrightarrow> type event = SIGN_IN_VIA_POPUP \<and> error event = None))"
proof -
  have a: "\<exists>h. getOutcomeHandler (type event) = Inr h \<and>
           callsOf r (snd (onEvent idp r event)) = [BroadcastResult h None (Some err)]"
    if "error event = Some err" and "type event \<noteq> UNKNOWN" for err
  proof -
    from that(2) obtain h where h: "getOutcomeHandler (type event) = Inr h"
      using getOutcomeHandler_Inr by blast
    have "callsOf r (snd (onEvent idp r event)) = [BroadcastResult h None (Some err)]"
      by (rule callsOf_append) (rule calls_error_event [OF that(1) h])
    with h show ?thesis by blast
  qed
  have b: "(\<exists>x. IsMatchingEvent x \<in> set (callsOf r (snd (onEvent idp r event))))
        \<longrightarrow> type event = SIGN_IN_VIA_POPUP \<and> error event = None"
    unfolding callsOf_onEvent
    by (cases "type event") (auto split: option.splits sum.splits)
  have c: "(\<exists>x. IsMatchingEvent x \<in> set (callsOf r (snd (onEvent idp r event))))
        \<longleftrightarrow> type event = SIGN_IN_VIA_POPUP \<and> error event = None"
    if "auth r \<noteq> None"
    unfolding callsOf_onEvent using that
    by (cases "type event") (auto split: option.splits sum.splits)
  from a b c show ?thesis by blast
qed

theorem error_broadcast_unfiltered_witness:
  "error (sampleEvent SIGN_IN_VIA_POPUP (Some ''gone'') (Some (Thrown ''denied''))) =
     Some (Thrown ''denied'')
   \<and> type (sampleEvent SIGN_IN_VIA_POPUP (Some ''gone'') (Some (Thrown ''denied''))) \<noteq> UNKNOWN
   \<and> \<not> isMatchingEvent (popupOutcomeHandler (pendingPopup ''abc'')) (Some ''gone'')
   \<and> callsOf (pendingPopup ''abc'')
        (snd (onEvent sampleIdp (pendingPopup ''abc'')
               (sampleEvent SIGN_IN_VIA_POPUP (Some ''gone'') (Some (Thrown ''denied''))))) =
      [BroadcastResult PopupHandler None (Some (Thrown ''denied''))]
   \<and> auth (pendingPopup ''abc'') \<noteq> None
   \<and> (\<exists>x. IsMatchingEvent x \<in>
         set (callsOf (pendingPopup ''abc'')
                (snd (onEvent sampleIdp (pendingPopup ''abc'')
                       (sampleEvent SIGN_IN_VIA_POPUP (Some ''gone'') None)))))"
proof -
  let ?e = "sampleEvent SIGN_IN_VIA_POPUP (Some ''gone'') (Some (Thrown ''denied''))"
  let ?e' = "sampleEvent SIGN_IN_VIA_POPUP (Some ''gone'') None"
  have e: "error ?e = Some (Thrown ''denied'')" and t: "type ?e \<noteq> UNKNOWN"
    and h: "getOutcomeHandler (type ?e) = Inr PopupHandler"
    and t': "type ?e' = SIGN_IN_VIA_POPUP" and e': "error ?e' = None"
    by (simp_all add: sampleEvent_def getOutcomeHandler_def)
  have s: "auth (pendingPopup ''abc'') \<noteq> None"
    by (simp add: pendingPopup_def appResolver_def)
  have m: "\<not> isMatchingEvent (popupOutcomeHandler (pendingPopup ''abc'')) (Some ''gone'')"
    by (simp add: pendingPopup_def newPopupResultManager_def popupRegister_def
          isMatchingEvent_def)
  from error_broadcast_unfiltered [of ?e "pendingPopup ''abc''" sampleIdp] e t
  obtain h' where "getOutcomeHandler (type ?e) = Inr h'"
    and c: "callsOf (pendingPopup ''abc'') (snd (onEvent sampleIdp (pendingPopup ''abc'') ?e)) =
              [BroadcastResult h' None (Some (Thrown ''denied''))]"
    by blast
  with h have "h' = PopupHandler" by simp
  with c have c': "callsOf (pendingPopup ''abc'')
                     (snd (onEvent sampleIdp (pendingPopup ''abc'') ?e)) =
              [BroadcastResult PopupHandler None (Some (Thrown ''denied''))]"
    by simp
  from error_broadcast_unfiltered [of ?e' "pendingPopup ''abc''" sampleIdp] s t' e'
  have d: "\<exists>x. IsMatchingEvent x \<in>
         set (callsOf (pendingPopup ''abc'') (snd (onEvent sampleIdp (pendingPopup ''abc'') ?e')))"
    by blast
  from e t m c' s d show ?thesis by (intro conjI)
qed

section \<open>Properties of the flow starters and the outcome handlers\<close>

text \<open>
  C7: on a host that is not initialized, \<^verbatim>\<open>getRedirectResult\<close> calls
  \<^verbatim>\<open>initializeAndWait(auth)\<close> and does not wait for its promise: the initializer has
  returned, the Pending Operation is registered and its promise handed back to the
  caller, while the initialization is still in progress and no settlement of it has been
  observed. (\<^verbatim>\<open>processPopup\<close> does wait: \<open>processPopup_awaits_initialization\<close>.)
\<close>

theorem getRedirectResult_does_not_await:
  "\<not> initialized (host (newResolver coldHost))
   \<and> fst (getRedirectResult (newResolver coldHost) appAuth) = 0
   \<and> redirectPending
        (redirectOutcomeHandler (snd (getRedirectResult (newResolver coldHost) appAuth))) =
      Some 0
   \<and> callsOf (newResolver coldHost)
        (snd (getRedirectResult (newResolver coldHost) appAuth)) =
      [IsInitialized, InitializeAndWait appAuth]
   \<and> initializing (host (snd (getRedirectResult (newResolver coldHost) appAuth)))
   \<and> \<not> initialized (host (snd (getRedirectResult (newResolver coldHost) appAuth)))"
proof -
  let ?r = "newResolver coldHost"
  have n: "redirectOutcome (redirectOutcomeHandler ?r) = None"
    and i: "\<not> initialized (host ?r)"
    by (simp_all add: newResolver_def newRedirectManager_def coldHost_def)
  have c: "callsOf ?r (snd (getRedirectResult ?r appAuth)) =
             [IsInitialized, InitializeAndWait appAuth]"
    using n i by (simp add: callsOf_append [OF calls_getRedirectResult])
  have p: "fst (getRedirectResult ?r appAuth) = 0"
    using n by (simp add: getRedirectResult_def getRedirectPromiseOrInit_def Let_def)
  have q: "redirectPending (redirectOutcomeHandler (snd (getRedirectResult ?r appAuth))) = Some 0"
    using n by (simp add: getRedirectResult_handlers)
  have h: "host (snd (getRedirectResult ?r appAuth)) = (host ?r)\<lparr>initializing := True\<rparr>"
    using n i
    by (simp add: getRedirectResult_def getRedirectPromiseOrInit_def Let_def
          host_redirectInitializer)
  from i c p q show ?thesis
    unfolding h by (simp add: newResolver_def coldHost_def)
qed

text \<open>
  C8: after a first \<^verbatim>\<open>getRedirectResult\<close> and any events delivered since, a second
  \<^verbatim>\<open>getRedirectResult\<close> returns the promise the first one returned and changes nothing
  in the resolver but the stored auth context: no second Pending Operation is created.
  Over the whole run the initializer runs at most once: \<^verbatim>\<open>isInitialized\<close>, which every
  run of the initializer asks first, is asked at most once.
\<close>

theorem getRedirectResult_reuses_pending:
  assumes "r1 = snd (getRedirectResult r a)"
    and "r2 = performAll idp r1 (map OnEvent events)"
  shows "fst (getRedirectResult r2 a') = fst (getRedirectResult r a)
       \<and> snd (getRedirectResult r2 a') = r2\<lparr>auth := Some a'\<rparr>
       \<and> length (filter (\<lambda>c. c = IsInitialized) (callsOf r (snd (getRedirectResult r2 a')))) \<le> 1"
proof -
  let ?p = "fst (getRedirectResult r a)"
  have o1: "redirectOutcome (redirectOutcomeHandler r1) = Some ?p"
    unfolding assms(1) by (rule getRedirectResult_outcome)
  from performAll_events [of idp r1 events] obtain cs where
    o2: "redirectOutcome (redirectOutcomeHandler r2) = redirectOutcome (redirectOutcomeHandler r1)"
    and c2: "calls r2 = calls r1 @ cs"
    and n: "IsInitialized \<notin> set cs"
    unfolding assms(2) by blast
  have g: "getRedirectResult r2 a' = (?p, r2\<lparr>auth := Some a'\<rparr>)"
    using o1 o2 by (simp add: getRedirectResult_existing)
  obtain xs where c1: "calls r1 = calls r @ xs"
    and x: "length (filter (\<lambda>c. c = IsInitialized) xs) \<le> 1"
    unfolding assms(1) using calls_getRedirectResult [of r a]
    by (cases "redirectOutcome (redirectOutcomeHandler r)") simp_all
  have "calls (snd (getRedirectResult r2 a')) = calls r @ (xs @ cs)"
    using g c1 c2 by simp
  then have "callsOf r (snd (getRedirectResult r2 a')) = xs @ cs"
    by (rule callsOf_append)
  moreover have "filter (\<lambda>c. c = IsInitialized) cs = []"
    using n by (auto simp add: filter_empty_conv)
  ultimately have "length (filter (\<lambda>c. c = IsInitialized)
                     (callsOf r (snd (getRedirectResult r2 a')))) \<le> 1"
    using x by simp
  with g show ?thesis by simp
qed

theorem getRedirectResult_reuses_pending_witness:
  "fst (getRedirectResult
          (performAll sampleIdp (snd (getRedirectResult (newResolver coldHost) appAuth))
             (map OnEvent [sampleEvent SIGN_IN_VIA_POPUP (Some ''stale'') None]))
          appAuth) =
     fst (getRedirectResult (newResolver coldHost) appAuth)
   \<and> redirectPending
        (redirectOutcomeHandler
           (performAll sampleIdp (snd (getRedirectResult (newResolver coldHost) appAuth))
              (map OnEvent [sampleEvent SIGN_IN_VIA_POPUP (Some ''stale'') None]))) = Some 0"
proof -
  let ?r = "newResolver coldHost"
  let ?e = "sampleEvent SIGN_IN_VIA_POPUP (Some ''stale'') None"
  let ?r1 = "snd (getRedirectResult ?r appAuth)"
  let ?r2 = "performAll sampleIdp ?r1 (map OnEvent [?e])"
  have t: "type ?e = SIGN_IN_VIA_POPUP" and n: "error ?e = None"
    by (simp_all add: sampleEvent_def)
  have m: "\<not> isMatchingEvent (popupOutcomeHandler ?r1) (eventId ?e)"
    by (simp add: getRedirectResult_handlers newResolver_def newPopupResultManager_def
          isMatchingEvent_def)
  have "redirectOutcomeHandler ?r2 = redirectOutcomeHandler ?r1"
    using m
    by (simp add: performAll_def
          onEvent_popup_sign_in [OF t n, of ?r1 sampleIdp] auth_getRedirectResult)
  moreover have "redirectPending (redirectOutcomeHandler ?r1) = Some 0"
    by (simp add: getRedirectResult_handlers newResolver_def newRedirectManager_def)
  ultimately have u: "redirectPending (redirectOutcomeHandler ?r2) = Some 0"
    by simp
  from getRedirectResult_reuses_pending
         [where r = ?r and a = appAuth and idp = sampleIdp and events = "[?e]"
            and a' = appAuth, OF refl refl] u
  show ?thesis by blast
qed

lemma sample_run_settles:
  "popupSettled
     (popupOutcomeHandler
        (performAll sampleIdp (newResolver coldHost)
           [ProcessPopup appAuth ''google.com'' SIGN_IN_VIA_POPUP (Some ''abc''),
            OnEvent (sampleEvent SIGN_IN_VIA_POPUP (Some ''abc'') None),
            OnEvent (sampleEvent SIGN_IN_VIA_POPUP (Some ''abc'') None)])) =
   [(0, Resolved (Some (UserCredential ''credential'')))]"
  by (simp add: performAll_def processPopup_def getNewPendingPromise_def popupOpener_def
        isInitialized_def initializeAndWait_def awaitInitializeAndWait_def openPopup_def
        logCall_def orNull_def popupRegister_def newResolver_def coldHost_def
        newPopupResultManager_def newRedirectManager_def sampleEvent_def onEvent_def
        callIsMatchingEvent_def isMatchingEvent_def execIdpTask_def getOutcomeHandler_def
        idpTaskParams_def orUndefined_def sampleIdp_def broadcastResult_def
        popupBroadcastResult_def settlement_def userForEvent_def appAuth_def alice_def
        Let_def)

text \<open>
  C9: along any run of operations on a resolver with fresh handlers, no promise is
  settled twice, in the popup handler and in the redirect handler. In every state
  reached, one \<^verbatim>\<open>broadcastResult\<close> settles at most one popup operation, the operation
  it settles is removed (the popup handler no longer matches the event id, the redirect
  handler holds no Pending Operation), and a second \<^verbatim>\<open>broadcastResult\<close> for the same
  event changes nothing in either handler.
\<close>

theorem pending_operation_settles_once:
  assumes "popupOutcomeHandler r = newPopupResultManager"
    and "redirectOutcomeHandler r = newRedirectManager"
    and "r' = performAll idp r ops"
  shows "distinct (map fst (popupSettled (popupOutcomeHandler r')))
       \<and> distinct (map fst (redirectSettled (redirectOutcomeHandler r')))
       \<and> length (popupSettled (popupOutcomeHandler (broadcastResult PopupHandler eid cred err r')))
           \<le> Suc (length (popupSettled (popupOutcomeHandler r')))
       \<and> \<not> isMatchingEvent
             (popupOutcomeHandler (broadcastResult PopupHandler eid cred err r')) eid
       \<and> redirectPending
           (redirectOutcomeHandler (broadcastResult RedirectHandler eid cred err r')) = None
       \<and> popupOutcomeHandler
           (broadcastResult PopupHandler eid cred' err'
              (broadcastResult PopupHandler eid cred err r')) =
         popupOutcomeHandler (broadcastResult PopupHandler eid cred err r')
       \<and> redirectOutcomeHandler
           (broadcastResult RedirectHandler eid' cred' err'
              (broadcastResult RedirectHandler eid cred err r')) =
         redirectOutcomeHandler (broadcastResult RedirectHandler eid cred err r')"
proof -
  have "popupInv (popupOutcomeHandler r)" and "redirectInv (redirectOutcomeHandler r)"
    using assms(1,2) by (simp_all add: popupInv_new redirectInv_new)
  then have inv: "popupInv (popupOutcomeHandler r')" "redirectInv (redirectOutcomeHandler r')"
    unfolding assms(3) using performAll_inv [of r idp ops] by simp_all
  have a: "distinct (map fst (popupSettled (popupOutcomeHandler r')))"
    using inv(1) by (simp add: popupInv_def)
  have b: "distinct (map fst (redirectSettled (redirectOutcomeHandler r')))"
    using inv(2) by (rule redirectInv_distinct)
  have c: "length (popupSettled (popupOutcomeHandler (broadcastResult PopupHandler eid cred err r')))
           \<le> Suc (length (popupSettled (popupOutcomeHandler r')))"
    by (simp add: popup_of_broadcastResult popupBroadcastResult_length)
  have d: "\<not> isMatchingEvent
             (popupOutcomeHandler (broadcastResult PopupHandler eid cred err r')) eid"
    by (simp add: popup_of_broadcastResult isMatchingEvent_after_broadcast)
  have e: "redirectPending
           (redirectOutcomeHandler (broadcastResult RedirectHandler eid cred err r')) = None"
    by (simp add: redirect_of_broadcastResult redirectBroadcastResult_def split: option.splits)
  have f: "popupOutcomeHandler
           (broadcastResult PopupHandler eid cred' err'
              (broadcastResult PopupHandler eid cred err r')) =
         popupOutcomeHandler (broadcastResult PopupHandler eid cred err r')"
    by (simp add: popup_of_broadcastResult popupBroadcastResult_twice)
  have g: "redirectOutcomeHandler
           (broadcastResult RedirectHandler eid' cred' err'
              (broadcastResult RedirectHandler eid cred err r')) =
         redirectOutcomeHandler (broadcastResult RedirectHandler eid cred err r')"
    by (simp add: redirect_of_broadcastResult redirectBroadcastResult_twice)
  from a b c d e f g show ?thesis by (intro conjI)
qed

theorem pending_operation_settles_once_witness:
  "popupOutcomeHandler (newResolver coldHost) = newPopupResultManager
   \<and> redirectOutcomeHandler (newResolver coldHost) = newRedirectManager
   \<and> distinct (map fst (popupSettled (popupOutcomeHandler
        (performAll sampleIdp (newResolver coldHost)
           [ProcessPopup appAuth ''google.com'' SIGN_IN_VIA_POPUP (Some ''abc''),
            OnEvent (sampleEvent SIGN_IN_VIA_POPUP (Some ''abc'') None),
            OnEvent (sampleEvent SIGN_IN_VIA_POPUP (Some ''abc'') None)]))))
   \<and> popupSettled (popupOutcomeHandler
        (performAll sampleIdp (newResolver coldHost)
           [ProcessPopup appAuth ''google.com'' SIGN_IN_VIA_POPUP (Some ''abc''),
            OnEvent (sampleEvent SIGN_IN_VIA_POPUP (Some ''abc'') None),
            OnEvent (sampleEvent SIGN_IN_VIA_POPUP (Some ''abc'') None)])) =
      [(0, Resolved (Some (UserCredential ''credential'')))]"
proof -
  let ?r = "newResolver coldHost"
  have p: "popupOutcomeHandler ?r = newPopupResultManager"
    and q: "redirectOutcomeHandler ?r = newRedirectManager"
    by (simp_all add: newResolver_def)
  from pending_operation_settles_once [OF p q refl] p q sample_run_settles
  show ?thesis by blast
qed

end
